theory Spec2Isabelle
  imports Complex_Main
begin

section \<open>queuectl: a persistent job queue with retries, backoff and a dead letter queue\<close>

text \<open>
  The development embeds \<^verbatim>\<open>src/backend/queuectl.js\<close>. The SQLite file is a record of the
  two tables; every command of the program is a function from the store to the new store.
  Clock readings (\<^verbatim>\<open>Date.now()\<close>, \<^verbatim>\<open>nowIso()\<close>, \<^verbatim>\<open>datetime('now')\<close>), the
  identifier drawn by \<^verbatim>\<open>uuidv4()\<close> and the outcome of the executed shell command are inputs.
  The clock readings of one transaction or of one command are taken at one instant; a
  pass of a worker has two, one before and one after the command it runs.

  Conventions of the embedding.
  \<^item> A timestamp is the number of milliseconds since the epoch. The program stores the
    text of \<^verbatim>\<open>toISOString()\<close>; for instants of the years 0000 to 9999 the order of these
    texts is the order of the instants, and the instants the clock delivers are taken to
    lie in that range.
  \<^item> A JavaScript number is \<open>NaN\<close>, an infinity or a finite IEEE 754 double, given by the
    rational it denotes. Reading a literal and every arithmetic operation round the exact
    result to the nearest double, ties to the even significand (\<open>round_double\<close>). The
    negative zero is not kept apart from zero; the program has no operation that tells
    them apart.
  \<^item> ECMAScript leaves the accuracy of \<^verbatim>\<open>Math.pow\<close> to the implementation. Its value on a
    finite base and an exponent of 2 or more is a parameter \<open>pw\<close> of the model, and
    what is proved holds for every such function.
  \<^item> Strings are byte strings; of the white space that JavaScript skips, the ASCII
    characters are modelled.
\<close>

subsection \<open>JavaScript numbers\<close>

datatype jsnum = NaN | Infinity bool | Fin rat

text \<open>\<open>Infinity True\<close> is the positive infinity, \<open>Infinity False\<close> the negative one.\<close>

definition pow2 :: "int \<Rightarrow> rat" where
  "pow2 e = (if 0 \<le> e then 2 ^ nat e else 1 / 2 ^ nat (- e))"

text \<open>The number of binary digits of a positive integer.\<close>

function bit_length :: "int \<Rightarrow> nat" where
  "bit_length n = (if n \<le> 0 then 0 else Suc (bit_length (n div 2)))"
  by auto
termination by (relation "measure nat") auto

declare bit_length.simps [simp del]

text \<open>\<open>\<lfloor>log\<^sub>2 x\<rfloor>\<close> for a positive rational \<open>x\<close>.\<close>

definition floor_log2 :: "rat \<Rightarrow> int" where
  "floor_log2 x =
     (let (n, d) = quotient_of x;
          k = int (bit_length n) - int (bit_length d)
      in if pow2 k \<le> x then k else k - 1)"

definition round_half_even :: "rat \<Rightarrow> int" where
  "round_half_even y =
     (let f = \<lfloor>y\<rfloor>; r = y - of_int f
      in if r < 1 / 2 then f else if 1 / 2 < r then f + 1 else if even f then f else f + 1)"

text \<open>
  The double nearest to a rational: 53 binary digits of significand \<open>m\<close> in the unit
  \<open>pow2 u\<close>, the least unit \<open>pow2 (- 1074)\<close> for the subnormal numbers, and an
  infinity when the rounded value \<open>m * pow2 u\<close> reaches \<open>pow2 1024\<close>, that is when it
  has more than 1024 binary digits before the point.
\<close>

definition round_double :: "rat \<Rightarrow> jsnum" where
  "round_double q =
     (if q = 0 then Fin 0
      else
        let x = \<bar>q\<bar>;
            u = max (floor_log2 x - 52) (- 1074);
            m = round_half_even (x / pow2 u);
            v = of_int m * pow2 u
        in if 1024 < u + int (bit_length m) then Infinity (0 < q)
           else Fin (if 0 < q then v else - v))"

fun js_times :: "jsnum \<Rightarrow> jsnum \<Rightarrow> jsnum" where
  "js_times NaN y = NaN"
| "js_times x NaN = NaN"
| "js_times (Infinity s) (Infinity t) = Infinity (s = t)"
| "js_times (Infinity s) (Fin y) = (if y = 0 then NaN else Infinity (s = (0 < y)))"
| "js_times (Fin x) (Infinity t) = (if x = 0 then NaN else Infinity (t = (0 < x)))"
| "js_times (Fin x) (Fin y) = round_double (x * y)"

fun js_plus :: "jsnum \<Rightarrow> jsnum \<Rightarrow> jsnum" where
  "js_plus NaN y = NaN"
| "js_plus x NaN = NaN"
| "js_plus (Infinity s) (Infinity t) = (if s = t then Infinity s else NaN)"
| "js_plus (Infinity s) (Fin y) = Infinity s"
| "js_plus (Fin x) (Infinity t) = Infinity t"
| "js_plus (Fin x) (Fin y) = round_double (x + y)"

text \<open>\<^verbatim>\<open>x <= y\<close> on numbers; a comparison with \<open>NaN\<close> is false.\<close>

fun js_le :: "jsnum \<Rightarrow> jsnum \<Rightarrow> bool" where
  "js_le NaN y = False"
| "js_le x NaN = False"
| "js_le (Infinity s) (Infinity t) = (\<not> s \<or> t)"
| "js_le (Infinity s) (Fin y) = (\<not> s)"
| "js_le (Fin x) (Infinity t) = t"
| "js_le (Fin x) (Fin y) = (x \<le> y)"

text \<open>
  \<^verbatim>\<open>Math.pow(base, exponent)\<close> for an exponent that is a natural number. The cases that
  ECMAScript fixes are written out; a finite base to the power 1 is the base itself in
  every implementation. The other values are those of the parameter \<open>pw\<close>.
\<close>

type_synonym pow_impl = "rat \<Rightarrow> nat \<Rightarrow> jsnum"

fun Math_pow :: "pow_impl \<Rightarrow> jsnum \<Rightarrow> nat \<Rightarrow> jsnum" where
  "Math_pow pw b 0 = Fin 1"
| "Math_pow pw NaN (Suc n) = NaN"
| "Math_pow pw (Infinity s) (Suc n) = Infinity (s \<or> odd n)"
| "Math_pow pw (Fin q) (Suc n) = (if n = 0 \<or> q = 0 then Fin q else pw q (Suc n))"

text \<open>\<^verbatim>\<open>x || d\<close> on numbers: \<open>NaN\<close> and zero are falsy.\<close>

definition js_or :: "jsnum \<Rightarrow> jsnum \<Rightarrow> jsnum" where
  "js_or x d = (if x = NaN \<or> x = Fin 0 then d else x)"

subsection \<open>Dates\<close>

datatype js_error = RangeError

text \<open>Truncation towards zero (\<^verbatim>\<open>ToIntegerOrInfinity\<close>).\<close>

definition js_trunc :: "rat \<Rightarrow> int" where
  "js_trunc q = (if 0 \<le> q then \<lfloor>q\<rfloor> else \<lceil>q\<rceil>)"

text \<open>
  \<^verbatim>\<open>new Date(v)\<close>: the time value is clipped; beyond 8.64e15 milliseconds on either side
  of the epoch, and for \<open>NaN\<close> and the infinities, the date is invalid (\<open>None\<close>).
\<close>

definition new_Date :: "jsnum \<Rightarrow> int option" where
  "new_Date v =
     (case v of
        Fin q \<Rightarrow> if \<bar>q\<bar> \<le> 8640000000000000 then Some (js_trunc q) else None
      | _ \<Rightarrow> None)"

text \<open>\<^verbatim>\<open>toISOString()\<close> throws \<open>RangeError\<close> on an invalid date.\<close>

definition toISOString :: "int option \<Rightarrow> js_error + int" where
  "toISOString d = (case d of None \<Rightarrow> Inl RangeError | Some t \<Rightarrow> Inr t)"

text \<open>
  SQLite's \<^verbatim>\<open>datetime(x)\<close> reads a text of the form \<^verbatim>\<open>YYYY-MM-DDTHH:MM:SS.SSSZ\<close> and
  returns it cut to whole seconds; a text with an expanded year (before 0000 or after
  9999) is not a date for SQLite and gives \<open>NULL\<close>.
\<close>

definition sql_datetime :: "int \<Rightarrow> int option" where
  "sql_datetime t =
     (if - 62167219200000 \<le> t \<and> t \<le> 253402300799999 then Some (t div 1000) else None)"

subsection \<open>Numbers read from strings\<close>

definition is_space :: "char \<Rightarrow> bool" where
  "is_space c = ((of_char c :: nat) \<in> {9, 10, 11, 12, 13, 32})"

definition digit_val :: "char \<Rightarrow> nat option" where
  "digit_val c =
     (let n = (of_char c :: nat) in
      if 48 \<le> n \<and> n \<le> 57 then Some (n - 48)
      else if 97 \<le> n \<and> n \<le> 102 then Some (n - 87)
      else if 65 \<le> n \<and> n \<le> 70 then Some (n - 55)
      else None)"

definition is_digit :: "nat \<Rightarrow> char \<Rightarrow> bool" where
  "is_digit radix c = (case digit_val c of None \<Rightarrow> False | Some d \<Rightarrow> d < radix)"

text \<open>The value of a digit string, most significant digit first.\<close>

definition digits_val :: "nat \<Rightarrow> string \<Rightarrow> int" where
  "digits_val radix ds = foldl (\<lambda>acc c. acc * int radix + int (the (digit_val c))) 0 ds"

text \<open>Removes a leading sign; the result says whether the sign was \<^verbatim>\<open>-\<close>.\<close>

fun strip_sign :: "string \<Rightarrow> bool \<times> string" where
  "strip_sign [] = (False, [])"
| "strip_sign (c # cs) =
     (if c = CHR ''-'' then (True, cs) else if c = CHR ''+'' then (False, cs) else (False, c # cs))"

fun strip_0x :: "string \<Rightarrow> nat \<times> string" where
  "strip_0x (a # b # cs) =
     (if a = CHR ''0'' \<and> (b = CHR ''x'' \<or> b = CHR ''X'') then (16, cs) else (10, a # b # cs))"
| "strip_0x cs = (10, cs)"

text \<open>
  \<^verbatim>\<open>parseInt(s)\<close> with no radix: the digits at the front of the trimmed string, as the
  nearest double; \<open>NaN\<close> when there is none.
\<close>

definition parseInt :: "string \<Rightarrow> jsnum" where
  "parseInt s =
     (let (neg, s1) = strip_sign (dropWhile is_space s);
          (radix, s2) = strip_0x s1;
          z = takeWhile (is_digit radix) s2
      in if z = [] then NaN
         else round_double (of_int ((if neg then - 1 else 1) * digits_val radix z)))"

text \<open>
  The exponent part of a decimal literal: \<^verbatim>\<open>e\<close> or \<^verbatim>\<open>E\<close>, an optional sign and at least
  one digit; anything else is not part of the literal and the exponent is 0.
\<close>

definition exponent_part :: "string \<Rightarrow> int" where
  "exponent_part s =
     (case s of
        [] \<Rightarrow> 0
      | c # cs \<Rightarrow>
          if c = CHR ''e'' \<or> c = CHR ''E'' then
            (let (neg, ds) = strip_sign cs; z = takeWhile (is_digit 10) ds
             in if z = [] then 0 else (if neg then - 1 else 1) * digits_val 10 z)
          else 0)"

definition pow10 :: "int \<Rightarrow> rat" where
  "pow10 e = (if 0 \<le> e then 10 ^ nat e else 1 / 10 ^ nat (- e))"

text \<open>
  \<^verbatim>\<open>parseFloat(s)\<close>: the longest prefix of the trimmed string that is a decimal literal
  (a sign, then \<^verbatim>\<open>Infinity\<close>, or digits with an optional fraction and exponent), as the
  nearest double.
\<close>

definition parseFloat :: "string \<Rightarrow> jsnum" where
  "parseFloat s =
     (let (neg, s1) = strip_sign (dropWhile is_space s);
          sgn = (if neg then - 1 else 1 :: rat)
      in if take 8 s1 = ''Infinity'' then Infinity (\<not> neg)
         else
           let ip = takeWhile (is_digit 10) s1;
               r1 = dropWhile (is_digit 10) s1;
               dot = (r1 \<noteq> [] \<and> hd r1 = CHR ''.'');
               fp = (if dot then takeWhile (is_digit 10) (tl r1) else []);
               r2 = (if dot then dropWhile (is_digit 10) (tl r1) else r1)
           in if ip = [] \<and> fp = [] then NaN
              else round_double (sgn * (of_int (digits_val 10 ip)
                                         + of_int (digits_val 10 fp) / 10 ^ length fp)
                                     * pow10 (exponent_part r2)))"

text \<open>
  A whole string as an unsigned decimal literal: digits with an optional fraction and
  an optional exponent, at least one digit before the exponent. The result is the exact
  value and whether the literal is a plain integer (no point and no exponent).
\<close>

definition unsigned_decimal :: "string \<Rightarrow> (rat \<times> bool) option" where
  "unsigned_decimal s =
     (let ip = takeWhile (is_digit 10) s;
          r1 = dropWhile (is_digit 10) s;
          dot = (r1 \<noteq> [] \<and> hd r1 = CHR ''.'');
          fp = (if dot then takeWhile (is_digit 10) (tl r1) else []);
          r2 = (if dot then dropWhile (is_digit 10) (tl r1) else r1);
          m = of_int (digits_val 10 ip) + of_int (digits_val 10 fp) / 10 ^ length fp
      in if ip = [] \<and> fp = [] then None
         else if r2 = [] then Some (m, \<not> dot)
         else if hd r2 = CHR ''e'' \<or> hd r2 = CHR ''E'' then
           (let (neg, ds) = strip_sign (tl r2)
            in if ds \<noteq> [] \<and> list_all (is_digit 10) ds
               then Some (m * pow10 ((if neg then - 1 else 1) * digits_val 10 ds), False)
               else None)
         else None)"

definition trim_ws :: "string \<Rightarrow> string" where
  "trim_ws s = rev (dropWhile is_space (rev (dropWhile is_space s)))"

text \<open>A literal with the prefix \<^verbatim>\<open>0x\<close>, \<^verbatim>\<open>0o\<close> or \<^verbatim>\<open>0b\<close>, without the prefix.\<close>

definition radix_literal :: "nat \<Rightarrow> string \<Rightarrow> jsnum" where
  "radix_literal radix ds =
     (if ds \<noteq> [] \<and> list_all (is_digit radix) ds then round_double (of_int (digits_val radix ds))
      else NaN)"

text \<open>
  The conversion of a string to a number that a comparison such as \<^verbatim>\<open>1 >= '3'\<close>
  applies (\<^verbatim>\<open>StringToNumber\<close>): the whole trimmed string has to be a numeric literal; the
  empty string is 0.
\<close>

definition StringToNumber :: "string \<Rightarrow> jsnum" where
  "StringToNumber s =
     (let t = trim_ws s in
      if t = [] then Fin 0
      else if take 2 t = ''0x'' \<or> take 2 t = ''0X'' then radix_literal 16 (drop 2 t)
      else if take 2 t = ''0o'' \<or> take 2 t = ''0O'' then radix_literal 8 (drop 2 t)
      else if take 2 t = ''0b'' \<or> take 2 t = ''0B'' then radix_literal 2 (drop 2 t)
      else
        let (neg, u) = strip_sign t in
        if u = ''Infinity'' then Infinity (\<not> neg)
        else (case unsigned_decimal u of
                None \<Rightarrow> NaN
              | Some (v, _) \<Rightarrow> round_double (if neg then - v else v)))"

subsection \<open>The store\<close>

datatype job_state = Pending | Processing | Failed | Completed | Dead

text \<open>
  A value of the column \<^verbatim>\<open>max_retries\<close>. The column is declared \<^verbatim>\<open>INTEGER NOT NULL\<close>;
  SQLite stores an integer where the bound value converts to one, and keeps a real or a
  text otherwise.
\<close>

datatype sql_value = SqlInt int | SqlReal jsnum | SqlText string

text \<open>
  A row of the table \<^verbatim>\<open>jobs\<close>. The column \<^verbatim>\<open>attempts\<close> is written by the program only
  as 0 or as an increment, hence a natural number; \<^verbatim>\<open>max_retries\<close> comes from the
  submitted payload or from the configuration.
\<close>

record job =
  job_id :: string
  command :: string
  state :: job_state
  attempts :: nat
  max_retries :: sql_value
  created_at :: int
  updated_at :: int
  available_at :: "int option"
  last_error :: "string option"

text \<open>
  The database: the rows of \<^verbatim>\<open>jobs\<close> in insertion order and the rows of \<^verbatim>\<open>config\<close>
  as key and value. Both tables have a primary key, and \<^verbatim>\<open>enqueue\<close> never stores an
  empty id: \<open>store_ok\<close> says so. Failures of the database itself (a locked or unreadable
  file) are not part of the model.
\<close>

record store =
  jobs :: "job list"
  config :: "(string \<times> string) list"

definition store_ok :: "store \<Rightarrow> bool" where
  "store_ok s =
     (distinct (map job_id (jobs s)) \<and> [] \<notin> set (map job_id (jobs s)) \<and>
      distinct (map fst (config s)))"

text \<open>\<^verbatim>\<open>SELECT * FROM jobs WHERE id = ?\<close>, first row.\<close>

definition get_job :: "job list \<Rightarrow> string \<Rightarrow> job option" where
  "get_job js i = find (\<lambda>j. job_id j = i) js"

text \<open>\<^verbatim>\<open>UPDATE jobs SET ... WHERE ...\<close>: the new rows, and the number of rows changed.\<close>

definition sql_update :: "(job \<Rightarrow> bool) \<Rightarrow> (job \<Rightarrow> job) \<Rightarrow> job list \<Rightarrow> job list" where
  "sql_update P f js = map (\<lambda>j. if P j then f j else j) js"

definition sql_changes :: "(job \<Rightarrow> bool) \<Rightarrow> job list \<Rightarrow> nat" where
  "sql_changes P js = length (filter P js)"

definition getConfig :: "(string \<times> string) list \<Rightarrow> string \<Rightarrow> string \<Rightarrow> string" where
  "getConfig cfg key fallback = (case map_of cfg key of None \<Rightarrow> fallback | Some v \<Rightarrow> v)"

text \<open>\<^verbatim>\<open>INSERT OR IGNORE INTO config\<close> and \<^verbatim>\<open>INSERT OR REPLACE INTO config\<close>.\<close>

definition insert_or_ignore :: "string \<Rightarrow> string \<Rightarrow> (string \<times> string) list \<Rightarrow> (string \<times> string) list" where
  "insert_or_ignore key v cfg = (if map_of cfg key = None then cfg @ [(key, v)] else cfg)"

definition insert_or_replace :: "string \<Rightarrow> string \<Rightarrow> (string \<times> string) list \<Rightarrow> (string \<times> string) list" where
  "insert_or_replace key v cfg = filter (\<lambda>kv. fst kv \<noteq> key) cfg @ [(key, v)]"

definition initDb :: "store \<Rightarrow> store" where
  "initDb s =
     s\<lparr>config := insert_or_ignore ''max-retries'' ''3''
                    (insert_or_ignore ''backoff-base'' ''2'' (config s))\<rparr>"

definition config_set :: "store \<Rightarrow> string \<Rightarrow> string \<Rightarrow> store" where
  "config_set s key v = s\<lparr>config := insert_or_replace key v (config s)\<rparr>"

definition empty_store :: store where
  "empty_store = \<lparr>jobs = [], config = []\<rparr>"

subsection \<open>Values bound to the column \<^verbatim>\<open>max_retries\<close>\<close>

text \<open>
  The \<^verbatim>\<open>INTEGER\<close> affinity of the column, on a real: a real that is a whole number
  strictly between \<open>- (2 ^ 63)\<close> and \<open>2 ^ 63\<close> is stored as that integer.
\<close>

definition integer_affinity :: "jsnum \<Rightarrow> sql_value" where
  "integer_affinity x =
     (case x of
        Fin q \<Rightarrow>
          if q = of_int \<lfloor>q\<rfloor> \<and> - (2 ^ 63) < q \<and> q < 2 ^ 63 then SqlInt \<lfloor>q\<rfloor> else SqlReal x
      | _ \<Rightarrow> SqlReal x)"

text \<open>
  The same affinity on a text. A text that is a decimal literal, with optional white
  space around it and an optional sign, is converted: a plain integer literal in the
  range of 64-bit integers to that integer, any other literal to the nearest double and
  from there as above. Any other text is stored as it is.
\<close>

definition text_affinity :: "string \<Rightarrow> sql_value" where
  "text_affinity s =
     (let (neg, u) = strip_sign (trim_ws s) in
      case unsigned_decimal u of
        None \<Rightarrow> SqlText s
      | Some (v, plain) \<Rightarrow>
          let q = (if neg then - v else v) in
          if plain \<and> - (2 ^ 63) \<le> q \<and> q \<le> 2 ^ 63 - 1 then SqlInt \<lfloor>q\<rfloor>
          else integer_affinity (round_double q))"

text \<open>
  What JavaScript holds after \<^verbatim>\<open>job.max_retries || parseInt(...)\<close>: a number, a string,
  or a value that \<^verbatim>\<open>better-sqlite3\<close> refuses to bind (\<^verbatim>\<open>true\<close>, an array, an object).
\<close>

datatype js_value = JsNumber jsnum | JsString string | JsOther

text \<open>
  The row cannot be written (\<open>None\<close>) when the value cannot be bound, and when it is
  \<open>NaN\<close>, which is bound as \<open>NULL\<close> into the \<^verbatim>\<open>NOT NULL\<close> column.
\<close>

definition bind_max_retries :: "js_value \<Rightarrow> sql_value option" where
  "bind_max_retries v =
     (case v of
        JsNumber x \<Rightarrow> if x = NaN then None else Some (integer_affinity x)
      | JsString t \<Rightarrow> Some (text_affinity t)
      | JsOther \<Rightarrow> None)"

text \<open>
  The test \<^verbatim>\<open>attempts >= job.max_retries\<close> of the worker and of \<^verbatim>\<open>recover\<close>, on the
  stored value. A stored integer is read as the nearest double; rounding keeps the
  order and leaves an attempt count (a whole number below \<open>2 ^ 53\<close>) and its
  successor fixed, so the comparison is that of the integers. A stored text is converted
  to a number by the comparison.
\<close>

definition exhausted :: "nat \<Rightarrow> sql_value \<Rightarrow> bool" where
  "exhausted a m =
     (case m of
        SqlInt n \<Rightarrow> n \<le> int a
      | SqlReal x \<Rightarrow> js_le x (Fin (of_nat a))
      | SqlText t \<Rightarrow> js_le (StringToNumber t) (Fin (of_nat a)))"

subsection \<open>Submission\<close>

text \<open>A JSON value; a number is given by the exact value of its literal.\<close>

datatype json = JNull | JBool bool | JNumber rat | JString string | JArray | JObject

definition truthy :: "json \<Rightarrow> bool" where
  "truthy v =
     (case v of
        JNull \<Rightarrow> False
      | JBool b \<Rightarrow> b
      | JNumber q \<Rightarrow> round_double q \<noteq> Fin 0
      | JString t \<Rightarrow> t \<noteq> []
      | JArray \<Rightarrow> True
      | JObject \<Rightarrow> True)"

text \<open>
  The parsed JSON of \<^verbatim>\<open>enqueue\<close>, an object, with the fields the program reads. An
  absent field is \<open>None\<close>. The fields \<^verbatim>\<open>id\<close> and \<^verbatim>\<open>command\<close> are strings when
  present; \<^verbatim>\<open>max_retries\<close> is any JSON value.
\<close>

record payload =
  p_id :: "string option"
  p_command :: "string option"
  p_max_retries :: "json option"

text \<open>\<^verbatim>\<open>job.max_retries || parseInt(getConfig(db, 'max-retries', '3'))\<close>\<close>

definition max_retries_param :: "json option \<Rightarrow> (string \<times> string) list \<Rightarrow> js_value" where
  "max_retries_param v cfg =
     (let fromConfig = JsNumber (parseInt (getConfig cfg ''max-retries'' ''3'')) in
      case v of
        None \<Rightarrow> fromConfig
      | Some x \<Rightarrow>
          if truthy x then
            (case x of
               JNumber q \<Rightarrow> JsNumber (round_double q)
             | JString t \<Rightarrow> JsString t
             | _ \<Rightarrow> JsOther)
          else fromConfig)"

datatype enqueue_result = Enqueued string | Rejected | Insert_failed

text \<open>
  \<^verbatim>\<open>Rejected\<close>: the message \<^verbatim>\<open>Job must include "command"\<close> and \<^verbatim>\<open>process.exit(1)\<close>.
  \<^verbatim>\<open>Insert_failed\<close>: the \<^verbatim>\<open>INSERT\<close> threw (the id is taken, or \<^verbatim>\<open>max_retries\<close> cannot be
  written) and the error was printed. The argument \<open>uuid\<close> is what \<^verbatim>\<open>uuidv4()\<close>
  returns.
\<close>

definition enqueue :: "store \<Rightarrow> payload \<Rightarrow> string \<Rightarrow> int \<Rightarrow> enqueue_result \<times> store" where
  "enqueue s p uuid now =
     (let i = (case p_id p of None \<Rightarrow> uuid | Some x \<Rightarrow> if x = [] then uuid else x) in
      case p_command p of
        None \<Rightarrow> (Rejected, s)
      | Some cmd \<Rightarrow>
          if cmd = [] then (Rejected, s)
          else
            (case bind_max_retries (max_retries_param (p_max_retries p) (config s)) of
               None \<Rightarrow> (Insert_failed, s)
             | Some m \<Rightarrow>
                 if i \<in> set (map job_id (jobs s)) then (Insert_failed, s)
                 else (Enqueued i,
                       s\<lparr>jobs := jobs s @
                          [\<lparr>job_id = i, command = cmd, state = Pending, attempts = 0,
                            max_retries = m, created_at = now, updated_at = now,
                            available_at = Some now, last_error = None\<rparr>]\<rparr>)))"

subsection \<open>The dead letter queue\<close>

text \<open>
  \<^verbatim>\<open>dlq retry <id>\<close>. When there is no row with the id, the command prints
  \<^verbatim>\<open>Not found\<close> and exits with status 1. Otherwise it prepares the statement
  \<^verbatim>\<open>UPDATE jobs SET attempts=0, state="pending", updated_at=?, available_at=? WHERE id = ?\<close>.
  The library \<^verbatim>\<open>better-sqlite3\<close> compiles SQLite with \<^verbatim>\<open>SQLITE_DQS=0\<close>: a name in double
  quotes is an identifier and never a string. The table has no column \<^verbatim>\<open>pending\<close>, so
  \<^verbatim>\<open>prepare\<close> throws \<^verbatim>\<open>no such column: "pending"\<close>; the statement is never run and
  the command ends with the exception.
\<close>

datatype dlq_result = Not_found | No_such_column string

definition dlq_retry :: "store \<Rightarrow> string \<Rightarrow> int \<Rightarrow> dlq_result \<times> store" where
  "dlq_retry s i now =
     (case get_job (jobs s) i of
        None \<Rightarrow> (Not_found, s)
      | Some _ \<Rightarrow> (No_such_column ''pending'', s))"

subsection \<open>The worker\<close>

text \<open>
  The \<^verbatim>\<open>WHERE\<close> clause of the selection in \<^verbatim>\<open>claimTx\<close>. A comparison with \<open>NULL\<close> is
  not true.
\<close>

definition eligible :: "int \<Rightarrow> job \<Rightarrow> bool" where
  "eligible now j =
     (state j = Pending \<or>
      (state j = Failed \<and>
       (case available_at j of
          None \<Rightarrow> False
        | Some a \<Rightarrow>
            (case (sql_datetime a, sql_datetime now) of
               (Some x, Some y) \<Rightarrow> x \<le> y
             | _ \<Rightarrow> False))))"

text \<open>
  \<^verbatim>\<open>ORDER BY created_at LIMIT 1\<close>. SQLite leaves the order of rows with equal keys open;
  the model keeps them in table order.
\<close>

definition candidate :: "job list \<Rightarrow> int \<Rightarrow> string option" where
  "candidate js now =
     (case sort_key created_at (filter (eligible now) js) of
        [] \<Rightarrow> None
      | j # _ \<Rightarrow> Some (job_id j))"

definition claimable :: "string \<Rightarrow> job \<Rightarrow> bool" where
  "claimable i j = (job_id j = i \<and> (state j = Pending \<or> state j = Failed))"

definition claimTx :: "store \<Rightarrow> int \<Rightarrow> string option \<times> store" where
  "claimTx s now =
     (case candidate (jobs s) now of
        None \<Rightarrow> (None, s)
      | Some i \<Rightarrow>
          let changes = sql_changes (claimable i) (jobs s);
              s' = s\<lparr>jobs := sql_update (claimable i)
                                (\<lambda>j. j\<lparr>state := Processing, updated_at := now\<rparr>) (jobs s)\<rparr>
          in if changes = 1 then (Some i, s') else (None, s'))"

text \<open>
  The conditional update of \<^verbatim>\<open>claimTx\<close> on its own, for a given id: the number of rows
  it changes and the new store.
\<close>

definition conditional_update :: "store \<Rightarrow> string \<Rightarrow> int \<Rightarrow> nat \<times> store" where
  "conditional_update s i now =
     (sql_changes (claimable i) (jobs s),
      s\<lparr>jobs := sql_update (claimable i)
                    (\<lambda>j. j\<lparr>state := Processing, updated_at := now\<rparr>) (jobs s)\<rparr>)"

text \<open>
  Claim attempts of several workers. \<^verbatim>\<open>claimTx\<close> is a \<^verbatim>\<open>db.transaction\<close>, and SQLite
  lets one write transaction commit at a time: the attempts take place in the order in
  which they commit, at the instants of the list, each on the store the one before has
  left. An attempt that SQLite aborts because the database is locked writes nothing and
  is not in the list.
\<close>

fun claim_attempts :: "store \<Rightarrow> int list \<Rightarrow> string option list \<times> store" where
  "claim_attempts s [] = ([], s)"
| "claim_attempts s (t # ts) =
     (let (r, s1) = claimTx s t;
          (rs, s2) = claim_attempts s1 ts
      in (r # rs, s2))"

text \<open>
  What \<^verbatim>\<open>runCommand\<close> resolves to: the exit code, the message of the error object when
  there is one, and the text of the standard error.
\<close>

record exec_result =
  code :: int
  error_message :: "string option"
  stderr :: string

definition lastErr :: "exec_result \<Rightarrow> string" where
  "lastErr r =
     (let alt = (if stderr r = [] then ''error'' else stderr r) in
      case error_message r of
        None \<Rightarrow> alt
      | Some m \<Rightarrow> if m = [] then alt else m)"

definition backoffBase :: "(string \<times> string) list \<Rightarrow> jsnum" where
  "backoffBase cfg = js_or (parseFloat (getConfig cfg ''backoff-base'' ''2'')) (Fin 2)"

text \<open>\<^verbatim>\<open>Date.now() + Math.pow(backoffBase, attempts) * 1000\<close>\<close>

definition retry_time :: "pow_impl \<Rightarrow> (string \<times> string) list \<Rightarrow> int \<Rightarrow> nat \<Rightarrow> jsnum" where
  "retry_time pw cfg now a =
     js_plus (Fin (of_int now)) (js_times (Math_pow pw (backoffBase cfg) a) (Fin 1000))"

text \<open>
  \<^verbatim>\<open>new Date(Date.now() + Math.pow(backoffBase, attempts) * 1000).toISOString()\<close>
\<close>

definition availableAt :: "pow_impl \<Rightarrow> (string \<times> string) list \<Rightarrow> int \<Rightarrow> nat \<Rightarrow> js_error + int" where
  "availableAt pw cfg now a = toISOString (new_Date (retry_time pw cfg now a))"

text \<open>
  The part of the loop body after \<^verbatim>\<open>runCommand\<close>: \<open>jb\<close> is the row read after the
  claim, \<open>r\<close> the result of its command. \<open>Inl\<close> is an exception that leaves
  \<^verbatim>\<open>workerLoop\<close>; nothing has been written then.
\<close>

definition finish :: "pow_impl \<Rightarrow> store \<Rightarrow> job \<Rightarrow> exec_result \<Rightarrow> int \<Rightarrow> js_error + store" where
  "finish pw s jb r now =
     (if code r = 0 then
        Inr (s\<lparr>jobs := sql_update (\<lambda>j. job_id j = job_id jb)
                          (\<lambda>j. j\<lparr>state := Completed, updated_at := now\<rparr>) (jobs s)\<rparr>)
      else
        let a = attempts jb + 1 in
        if exhausted a (max_retries jb) then
          Inr (s\<lparr>jobs := sql_update (\<lambda>j. job_id j = job_id jb)
                            (\<lambda>j. j\<lparr>state := Dead, attempts := a, updated_at := now,
                                   last_error := Some (lastErr r)\<rparr>) (jobs s)\<rparr>)
        else
          (case availableAt pw (config s) now a of
             Inl e \<Rightarrow> Inl e
           | Inr av \<Rightarrow>
               Inr (s\<lparr>jobs := sql_update (\<lambda>j. job_id j = job_id jb)
                                 (\<lambda>j. j\<lparr>state := Failed, attempts := a, available_at := Some av,
                                        updated_at := now, last_error := Some (lastErr r)\<rparr>)
                                 (jobs s)\<rparr>)))"

text \<open>
  One pass through the body of the loop of \<^verbatim>\<open>workerLoop\<close>: the claim at the instant
  \<open>t1\<close>, the command with result \<open>r\<close>, the update at \<open>t2\<close>. The first component is
  the exception that ends the worker, if any. The test \<^verbatim>\<open>!jobId\<close> also holds for an
  empty id.
\<close>

definition worker_iteration ::
    "pow_impl \<Rightarrow> store \<Rightarrow> int \<Rightarrow> exec_result \<Rightarrow> int \<Rightarrow> js_error option \<times> store" where
  "worker_iteration pw s t1 r t2 =
     (case claimTx s t1 of
        (None, s1) \<Rightarrow> (None, s1)
      | (Some i, s1) \<Rightarrow>
          if i = [] then (None, s1)
          else
            (case get_job (jobs s1) i of
               None \<Rightarrow> (None, s1)
             | Some jb \<Rightarrow>
                 (case finish pw s1 jb r t2 of
                    Inl e \<Rightarrow> (Some e, s1)
                  | Inr s2 \<Rightarrow> (None, s2))))"

subsection \<open>Recovery\<close>

definition stale :: "int \<Rightarrow> job \<Rightarrow> bool" where
  "stale threshold j = (state j = Processing \<and> updated_at j \<le> threshold)"

text \<open>
  The loop over the selected rows. The update of the retry branch has no
  \<^verbatim>\<open>last_error\<close> column and increments the stored \<^verbatim>\<open>attempts\<close>. An exception ends the
  command and keeps the rows written so far.
\<close>

fun recover_rows :: "pow_impl \<Rightarrow> int \<Rightarrow> job list \<Rightarrow> store \<Rightarrow> js_error option \<times> store" where
  "recover_rows pw now [] s = (None, s)"
| "recover_rows pw now (r # rs) s =
     (let a = attempts r + 1 in
      if exhausted a (max_retries r) then
        recover_rows pw now rs
          (s\<lparr>jobs := sql_update (\<lambda>j. job_id j = job_id r)
                        (\<lambda>j. j\<lparr>state := Dead, attempts := a, updated_at := now,
                               last_error := Some ''stale-processing-recovered''\<rparr>) (jobs s)\<rparr>)
      else
        (case availableAt pw (config s) now a of
           Inl e \<Rightarrow> (Some e, s)
         | Inr av \<Rightarrow>
             recover_rows pw now rs
               (s\<lparr>jobs := sql_update (\<lambda>j. job_id j = job_id r)
                             (\<lambda>j. j\<lparr>state := Failed, attempts := attempts j + 1,
                                    available_at := Some av, updated_at := now\<rparr>) (jobs s)\<rparr>)))"

text \<open>
  \<^verbatim>\<open>recover\<close> with the option value \<open>staleSeconds\<close>, run at the instant \<open>now\<close>. The
  selection compares the texts of \<^verbatim>\<open>updated_at\<close> and of the threshold; the model compares
  the instants, which is the same for a threshold in the years 0000 to 9999. The
  threshold is written without rounding: the clock reading and the seconds of the option
  are whole numbers, and for a clock reading in the years 0000 to 9999 their difference
  in milliseconds is a double whenever it is a valid date.
\<close>

definition recover :: "pow_impl \<Rightarrow> store \<Rightarrow> int \<Rightarrow> int \<Rightarrow> js_error option \<times> store" where
  "recover pw s staleSeconds now =
     (case toISOString (new_Date (Fin (of_int now - of_int staleSeconds * 1000))) of
        Inl e \<Rightarrow> (Some e, s)
      | Inr staleThreshold \<Rightarrow> recover_rows pw now (filter (stale staleThreshold) (jobs s)) s)"

text \<open>
  The row that \<^verbatim>\<open>recover\<close> writes for a selected row \<open>r\<close> (the row itself when the
  retry time cannot be computed).
\<close>

definition recovered_row :: "pow_impl \<Rightarrow> (string \<times> string) list \<Rightarrow> int \<Rightarrow> job \<Rightarrow> job" where
  "recovered_row pw cfg now r =
     (if exhausted (attempts r + 1) (max_retries r) then
        r\<lparr>state := Dead, attempts := attempts r + 1, updated_at := now,
          last_error := Some ''stale-processing-recovered''\<rparr>
      else
        (case availableAt pw cfg now (attempts r + 1) of
           Inl e \<Rightarrow> r
         | Inr av \<Rightarrow>
             r\<lparr>state := Failed, attempts := attempts r + 1, available_at := Some av,
               updated_at := now\<rparr>))"

subsection \<open>The commands as operations on the store\<close>

text \<open>
  The commands that write to the database. \<^verbatim>\<open>list\<close>, \<^verbatim>\<open>status\<close> and \<^verbatim>\<open>dlq list\<close> only
  read. A worker appears with one pass of its loop.
\<close>

datatype operation =
    Op_init
  | Op_enqueue payload string int
  | Op_worker int exec_result int
  | Op_dlq_retry string int
  | Op_config_set string string
  | Op_recover int int

fun run_op :: "pow_impl \<Rightarrow> operation \<Rightarrow> store \<Rightarrow> store" where
  "run_op pw Op_init s = initDb s"
| "run_op pw (Op_enqueue p uuid now) s = snd (enqueue s p uuid now)"
| "run_op pw (Op_worker t1 r t2) s = snd (worker_iteration pw s t1 r t2)"
| "run_op pw (Op_dlq_retry i now) s = snd (dlq_retry s i now)"
| "run_op pw (Op_config_set key v) s = config_set s key v"
| "run_op pw (Op_recover staleSeconds now) s = snd (recover pw s staleSeconds now)"

text \<open>Columns of the row with a given id.\<close>

definition state_of :: "store \<Rightarrow> string \<Rightarrow> job_state option" where
  "state_of s i = map_option state (get_job (jobs s) i)"

definition attempts_of :: "store \<Rightarrow> string \<Rightarrow> nat option" where
  "attempts_of s i = map_option attempts (get_job (jobs s) i)"

definition available_at_of :: "store \<Rightarrow> string \<Rightarrow> int option" where
  "available_at_of s i = Option.bind (get_job (jobs s) i) available_at"

definition last_error_of :: "store \<Rightarrow> string \<Rightarrow> string option" where
  "last_error_of s i = Option.bind (get_job (jobs s) i) last_error"

text \<open>
  A failure transition of the job \<open>i\<close> in a command: a worker claims the job, its
  command fails and the pass writes the result; or \<^verbatim>\<open>recover\<close> finds the job stale and
  writes its row. A pass or a run that raises before its update of the row leaves the job
  processing and is no transition of it.
\<close>

fun failure_transition :: "pow_impl \<Rightarrow> operation \<Rightarrow> store \<Rightarrow> string \<Rightarrow> bool" where
  "failure_transition pw (Op_worker t1 r t2) s i =
     (code r \<noteq> 0 \<and> fst (claimTx s t1) = Some i \<and> fst (worker_iteration pw s t1 r t2) = None)"
| "failure_transition pw (Op_recover staleSeconds now) s i =
     (case get_job (jobs s) i of
        None \<Rightarrow> False
      | Some j \<Rightarrow>
          stale (now - staleSeconds * 1000) j \<and>
          state_of (snd (recover pw s staleSeconds now)) i \<noteq> Some Processing)"
| "failure_transition pw _ s i = False"

subsection \<open>Sample data\<close>

definition sample_job :: "job_state \<Rightarrow> nat \<Rightarrow> int \<Rightarrow> job" where
  "sample_job st a m =
     \<lparr>job_id = ''job2'', command = ''exit 1'', state = st, attempts = a, max_retries = SqlInt m,
      created_at = 1700000000000, updated_at = 1700000000000,
      available_at = Some 1700000000000, last_error = None\<rparr>"

definition sample_store :: "job_state \<Rightarrow> nat \<Rightarrow> int \<Rightarrow> string \<Rightarrow> store" where
  "sample_store st a m base =
     \<lparr>jobs = [sample_job st a m], config = [(''backoff-base'', base), (''max-retries'', ''3'')]\<rparr>"

definition command_failed :: exec_result where
  "command_failed = \<lparr>code = 1, error_message = Some ''Command failed: exit 1'', stderr = []\<rparr>"

definition command_ok :: exec_result where
  "command_ok = \<lparr>code = 0, error_message = None, stderr = []\<rparr>"

text \<open>The sample store with its job processing and stale, after \<^verbatim>\<open>recover\<close>.\<close>

definition recovered_store :: store where
  "recovered_store =
     \<lparr>jobs = [\<lparr>job_id = ''job2'', command = ''exit 1'', state = Failed, attempts = 1,
               max_retries = SqlInt 3, created_at = 1700000000000, updated_at = 1700003601000,
               available_at = Some 1700003603000, last_error = None\<rparr>],
      config = [(''backoff-base'', ''2''), (''max-retries'', ''3'')]\<rparr>"

text \<open>A failed job whose retry time is 800 ms after the instant 1700000002100.\<close>

definition waiting_store :: store where
  "waiting_store =
     \<lparr>jobs = [\<lparr>job_id = ''job2'', command = ''exit 1'', state = Failed, attempts = 1,
               max_retries = SqlInt 3, created_at = 1700000000000, updated_at = 1700000000900,
               available_at = Some 1700000002900, last_error = Some ''Command failed: exit 1''\<rparr>],
      config = [(''backoff-base'', ''2''), (''max-retries'', ''3'')]\<rparr>"

section \<open>Properties\<close>

subsection \<open>Rows and updates\<close>

lemma get_job_sql_update:
  assumes "\<And>j. job_id (f j) = job_id j"
  shows "get_job (sql_update P f js) i = map_option (\<lambda>j. if P j then f j else j) (get_job js i)"
  using assms by (induction js) (auto simp: get_job_def sql_update_def)

lemma job_ids_sql_update:
  assumes "\<And>j. job_id (f j) = job_id j"
  shows "map job_id (sql_update P f js) = map job_id js"
  using assms by (induction js) (auto simp: sql_update_def)

lemma job_id_set_sql_update:
  assumes "\<And>j. job_id (f j) = job_id j"
  shows "job_id ` set (sql_update P f js) = job_id ` set js"
proof -
  have "set (map job_id (sql_update P f js)) = set (map job_id js)"
    by (simp only: job_ids_sql_update [of f, OF assms])
  then show ?thesis by simp
qed

lemma get_job_member:
  "distinct (map job_id js) \<Longrightarrow> j \<in> set js \<Longrightarrow> get_job js (job_id j) = Some j"
  by (induction js) (auto simp: get_job_def)

lemma get_job_SomeD:
  "get_job js i = Some j \<Longrightarrow> j \<in> set js \<and> job_id j = i"
  by (induction js) (auto simp: get_job_def split: if_splits)

lemma get_job_None_iff:
  "get_job js i = None \<longleftrightarrow> i \<notin> job_id ` set js"
  by (induction js) (auto simp: get_job_def)

lemma filter_sql_update_head:
  assumes "distinct (map job_id js)" and "filter P js = r # rs" and "\<And>j. \<not> P (f j)"
  shows "filter P (sql_update (\<lambda>j. job_id j = job_id r) f js) = rs"
  using assms
proof (induction js)
  case Nil
  then show ?case by simp
next
  case (Cons x xs)
  show ?case
  proof (cases "P x")
    case True
    with Cons.prems have xr: "x = r" and rest: "filter P xs = rs" by auto
    from Cons.prems(1) xr have "job_id r \<notin> job_id ` set xs" by simp
    then have "\<forall>j \<in> set xs. job_id j \<noteq> job_id r" by (metis imageI)
    then have "map (\<lambda>j. if job_id j = job_id r then f j else j) xs = xs"
      by (induction xs) auto
    with xr rest Cons.prems(3) show ?thesis by (simp add: sql_update_def)
  next
    case False
    with Cons.prems have "filter P xs = r # rs" by auto
    with Cons.IH Cons.prems have "filter P (sql_update (\<lambda>j. job_id j = job_id r) f xs) = rs" by auto
    with False Cons.prems(3) show ?thesis by (simp add: sql_update_def)
  qed
qed

lemma get_job_update_by_id:
  assumes "\<And>j. job_id (f j) = job_id j"
  shows "get_job (sql_update (\<lambda>j. job_id j = i) f js) i' =
           (if i' = i then map_option f (get_job js i') else get_job js i')"
proof (cases "get_job js i'")
  case None
  then show ?thesis by (auto simp: get_job_sql_update assms)
next
  case (Some k)
  from get_job_SomeD [OF Some] have "job_id k = i'" by simp
  with Some show ?thesis by (auto simp: get_job_sql_update assms)
qed

subsection \<open>Dates\<close>

lemma js_trunc_of_int [simp]: "js_trunc (of_int k) = k"
  by (simp add: js_trunc_def)

lemma toISOString_Inr_iff: "toISOString d = Inr t \<longleftrightarrow> d = Some t"
  by (cases d) (auto simp: toISOString_def)

lemma toISOString_Inl_iff: "toISOString d = Inl e \<longleftrightarrow> d = None"
  by (cases d; cases e) (auto simp: toISOString_def)

lemma new_Date_of_int:
  "new_Date (Fin (of_int k)) = (if \<bar>k\<bar> \<le> 8640000000000000 then Some k else None)"
proof -
  have "(\<bar>of_int k :: rat\<bar> \<le> 8640000000000000) = (\<bar>k\<bar> \<le> 8640000000000000)"
    by (simp only: of_int_abs [symmetric] of_int_le_numeral_iff)
  then show ?thesis by (simp add: new_Date_def)
qed

lemma staleThreshold_value:
  assumes "toISOString (new_Date (Fin (of_int now - of_int n * 1000))) = Inr thr"
  shows "thr = now - n * 1000"
proof -
  have "(of_int now - of_int n * 1000 :: rat) = of_int (now - n * 1000)" by simp
  with assms have "new_Date (Fin (of_int (now - n * 1000))) = Some thr"
    by (simp only: toISOString_Inr_iff)
  then have "(if \<bar>now - n * 1000\<bar> \<le> 8640000000000000 then Some (now - n * 1000) else None)
               = Some thr"
    by (simp only: new_Date_of_int)
  then show ?thesis by (simp split: if_splits)
qed

subsection \<open>The claim\<close>

lemma sort_key_head:
  assumes "sort_key f xs = y # ys"
  shows "y \<in> set xs \<and> (\<forall>k \<in> set xs. f y \<le> f k)"
proof -
  have "set (sort_key f xs) = set xs" by simp
  with assms have m: "set xs = insert y (set ys)" by simp
  have "sorted (map f (sort_key f xs))" by (rule sorted_sort_key)
  with assms have "\<forall>k \<in> set ys. f y \<le> f k" by simp
  with m show ?thesis by auto
qed

lemma candidate_Some:
  assumes "candidate js now = Some i"
  shows "\<exists>j \<in> set js. job_id j = i \<and> eligible now j \<and>
           (\<forall>k \<in> set js. eligible now k \<longrightarrow> created_at j \<le> created_at k)"
proof -
  from assms obtain j rest where s: "sort_key created_at (filter (eligible now) js) = j # rest"
    and i: "job_id j = i"
    by (auto simp: candidate_def split: list.splits)
  from sort_key_head [OF s] i show ?thesis by auto
qed

lemma candidate_None_iff:
  "candidate js now = None \<longleftrightarrow> (\<forall>j \<in> set js. \<not> eligible now j)"
proof -
  have "(sort_key created_at (filter (eligible now) js) = []) = (filter (eligible now) js = [])"
    by (metis length_sort list.size(3) length_0_conv)
  then show ?thesis
    by (auto simp: candidate_def filter_empty_conv split: list.splits)
qed

lemma eligible_claimable: "eligible now j \<Longrightarrow> claimable (job_id j) j"
  by (auto simp: eligible_def claimable_def)

lemma one_row_per_id:
  assumes "distinct (map job_id js)" and "j \<in> set js" and "P j"
  shows "length (filter (\<lambda>x. job_id x = job_id j \<and> P x) js) = 1"
  using assms
proof (induction js)
  case Nil
  then show ?case by simp
next
  case (Cons x xs)
  show ?case
  proof (cases "x = j")
    case True
    with Cons.prems(1) have "job_id j \<notin> job_id ` set xs" by simp
    then have "\<forall>x \<in> set xs. job_id x \<noteq> job_id j" by (metis imageI)
    then have "filter (\<lambda>x. job_id x = job_id j \<and> P x) xs = []"
      by (simp add: filter_empty_conv)
    with True Cons.prems(3) show ?thesis by simp
  next
    case False
    with Cons.prems have jx: "j \<in> set xs" by simp
    with Cons.prems(1) have "job_id x \<noteq> job_id j" by force
    with Cons.IH [OF _ jx Cons.prems(3)] Cons.prems(1) show ?thesis by simp
  qed
qed

lemma claim_changes_one:
  assumes "distinct (map job_id js)" and "j \<in> set js" and "eligible now j"
  shows "sql_changes (claimable (job_id j)) js = 1"
proof -
  from assms(3) have "state j = Pending \<or> state j = Failed" by (auto simp: eligible_def)
  from one_row_per_id [OF assms(1) assms(2), of "\<lambda>x. state x = Pending \<or> state x = Failed", OF this]
  show ?thesis by (simp add: sql_changes_def claimable_def [abs_def])
qed

lemma claimTx_None:
  assumes "store_ok s"
  shows "fst (claimTx s now) = None \<longleftrightarrow> (\<forall>j \<in> set (jobs s). \<not> eligible now j)"
proof (cases "candidate (jobs s) now")
  case None
  then show ?thesis by (simp add: claimTx_def candidate_None_iff [symmetric])
next
  case (Some i)
  from candidate_Some [OF Some] obtain j where j: "j \<in> set (jobs s)" "job_id j = i" "eligible now j"
    by blast
  from assms have "distinct (map job_id (jobs s))" by (simp add: store_ok_def)
  from claim_changes_one [OF this j(1) j(3)] j(2) have "sql_changes (claimable i) (jobs s) = 1" by simp
  with Some j show ?thesis by (auto simp: claimTx_def Let_def)
qed

lemma claimTx_None_unchanged:
  assumes "store_ok s" and "claimTx s now = (None, s')"
  shows "s' = s"
proof (cases "candidate (jobs s) now")
  case None
  with assms(2) show ?thesis by (simp add: claimTx_def)
next
  case (Some i)
  from candidate_Some [OF Some] obtain j where j: "j \<in> set (jobs s)" "job_id j = i" "eligible now j"
    by blast
  from assms have "distinct (map job_id (jobs s))" by (simp add: store_ok_def)
  from claim_changes_one [OF this j(1) j(3)] j(2) have "sql_changes (claimable i) (jobs s) = 1" by simp
  with Some assms(2) show ?thesis by (simp add: claimTx_def Let_def)
qed

lemma claimTx_Some:
  assumes "store_ok s" and "claimTx s now = (Some i, s')"
  shows "\<exists>j \<in> set (jobs s). job_id j = i \<and> eligible now j \<and>
           (\<forall>k \<in> set (jobs s). eligible now k \<longrightarrow> created_at j \<le> created_at k) \<and>
           get_job (jobs s') i = Some (j\<lparr>state := Processing, updated_at := now\<rparr>) \<and>
           (\<forall>i'. i' \<noteq> i \<longrightarrow> get_job (jobs s') i' = get_job (jobs s) i') \<and>
           map job_id (jobs s') = map job_id (jobs s) \<and> config s' = config s"
proof -
  from assms(2) have c: "candidate (jobs s) now = Some i"
    and s': "s' = s\<lparr>jobs := sql_update (claimable i)
                                (\<lambda>j. j\<lparr>state := Processing, updated_at := now\<rparr>) (jobs s)\<rparr>"
    by (auto simp: claimTx_def Let_def split: option.splits if_splits)
  from candidate_Some [OF c] obtain j where j: "j \<in> set (jobs s)" "job_id j = i" "eligible now j"
    and m: "\<forall>k \<in> set (jobs s). eligible now k \<longrightarrow> created_at j \<le> created_at k"
    by blast
  from assms(1) have d: "distinct (map job_id (jobs s))" by (simp add: store_ok_def)
  have g: "get_job (jobs s) i = Some j" using get_job_member [OF d j(1)] j(2) by simp
  have upd: "\<And>i'. get_job (jobs s') i' =
      map_option (\<lambda>j. if claimable i j then j\<lparr>state := Processing, updated_at := now\<rparr> else j)
        (get_job (jobs s) i')"
    by (simp add: s' get_job_sql_update)
  have 1: "get_job (jobs s') i = Some (j\<lparr>state := Processing, updated_at := now\<rparr>)"
    using eligible_claimable [OF j(3)] j(2) by (simp add: upd g)
  have 2: "\<forall>i'. i' \<noteq> i \<longrightarrow> get_job (jobs s') i' = get_job (jobs s) i'"
  proof (intro allI impI)
    fix i' assume ne: "i' \<noteq> i"
    show "get_job (jobs s') i' = get_job (jobs s) i'"
    proof (cases "get_job (jobs s) i'")
      case None
      then show ?thesis by (simp add: upd)
    next
      case (Some k)
      from get_job_SomeD [OF Some] ne have "\<not> claimable i k" by (simp add: claimable_def)
      with Some show ?thesis by (simp add: upd)
    qed
  qed
  have 3: "map job_id (jobs s') = map job_id (jobs s)" by (simp add: s' job_ids_sql_update)
  have 4: "config s' = config s" by (simp add: s')
  from j m 1 2 3 4 show ?thesis by blast
qed

subsection \<open>The result of a job\<close>





lemma finish_success:
  assumes "code r = 0"
  shows "\<exists>s2. finish pw s jb r now = Inr s2 \<and> config s2 = config s \<and>
           map job_id (jobs s2) = map job_id (jobs s) \<and>
           (\<forall>i'. get_job (jobs s2) i' =
              (if i' = job_id jb
               then map_option (\<lambda>j. j\<lparr>state := Completed, updated_at := now\<rparr>) (get_job (jobs s) i')
               else get_job (jobs s) i'))"
  using assms by (simp add: finish_def get_job_update_by_id job_ids_sql_update)

lemma finish_dead:
  assumes "code r \<noteq> 0" and "exhausted (attempts jb + 1) (max_retries jb)"
  shows "\<exists>s2. finish pw s jb r now = Inr s2 \<and> config s2 = config s \<and>
           map job_id (jobs s2) = map job_id (jobs s) \<and>
           (\<forall>i'. get_job (jobs s2) i' =
              (if i' = job_id jb
               then map_option (\<lambda>j. j\<lparr>state := Dead, attempts := attempts jb + 1, updated_at := now,
                                       last_error := Some (lastErr r)\<rparr>) (get_job (jobs s) i')
               else get_job (jobs s) i'))"
  using assms by (simp add: finish_def Let_def get_job_update_by_id job_ids_sql_update)

lemma finish_failed:
  assumes "code r \<noteq> 0" and "\<not> exhausted (attempts jb + 1) (max_retries jb)"
    and "availableAt pw (config s) now (attempts jb + 1) = Inr av"
  shows "\<exists>s2. finish pw s jb r now = Inr s2 \<and> config s2 = config s \<and>
           map job_id (jobs s2) = map job_id (jobs s) \<and>
           (\<forall>i'. get_job (jobs s2) i' =
              (if i' = job_id jb
               then map_option (\<lambda>j. j\<lparr>state := Failed, attempts := attempts jb + 1,
                                       available_at := Some av, updated_at := now,
                                       last_error := Some (lastErr r)\<rparr>) (get_job (jobs s) i')
               else get_job (jobs s) i'))"
  using assms by (simp add: finish_def Let_def get_job_update_by_id job_ids_sql_update)

lemma finish_raises:
  assumes "code r \<noteq> 0" and "\<not> exhausted (attempts jb + 1) (max_retries jb)"
    and "availableAt pw (config s) now (attempts jb + 1) = Inl err"
  shows "finish pw s jb r now = Inl err"
  using assms by (simp add: finish_def Let_def)

lemma worker_result:
  assumes "store_ok s" and "claimTx s t1 = (Some i, s1)" and "get_job (jobs s) i = Some j"
    and "worker_iteration pw s t1 r t2 = (e, s2)"
  shows "(code r = 0 \<longrightarrow>
            e = None \<and> get_job (jobs s2) i = Some (j\<lparr>state := Completed, updated_at := t2\<rparr>)) \<and>
         (code r \<noteq> 0 \<and> exhausted (attempts j + 1) (max_retries j) \<longrightarrow>
            e = None \<and>
            get_job (jobs s2) i =
              Some (j\<lparr>state := Dead, attempts := attempts j + 1, updated_at := t2,
                     last_error := Some (lastErr r)\<rparr>)) \<and>
         (code r \<noteq> 0 \<and> \<not> exhausted (attempts j + 1) (max_retries j) \<longrightarrow>
            (case availableAt pw (config s) t2 (attempts j + 1) of
               Inl err \<Rightarrow>
                 e = Some err \<and>
                 get_job (jobs s2) i = Some (j\<lparr>state := Processing, updated_at := t1\<rparr>)
             | Inr av \<Rightarrow>
                 e = None \<and>
                 get_job (jobs s2) i =
                   Some (j\<lparr>state := Failed, attempts := attempts j + 1, available_at := Some av,
                          updated_at := t2, last_error := Some (lastErr r)\<rparr>))) \<and>
         (\<forall>i'. i' \<noteq> i \<longrightarrow> get_job (jobs s2) i' = get_job (jobs s) i') \<and>
         map job_id (jobs s2) = map job_id (jobs s) \<and> config s2 = config s"
proof -
  from claimTx_Some [OF assms(1) assms(2)] obtain k where
    k: "k \<in> set (jobs s)" "job_id k = i"
    and g1: "get_job (jobs s1) i = Some (k\<lparr>state := Processing, updated_at := t1\<rparr>)"
    and o1: "\<forall>i'. i' \<noteq> i \<longrightarrow> get_job (jobs s1) i' = get_job (jobs s) i'"
    and ids1: "map job_id (jobs s1) = map job_id (jobs s)" and c1: "config s1 = config s"
    by blast
  from assms(1) have "distinct (map job_id (jobs s))" by (simp add: store_ok_def)
  from get_job_member [OF this k(1)] k(2) assms(3) have kj: "k = j" by simp
  let ?jb = "j\<lparr>state := Processing, updated_at := t1\<rparr>"
  from g1 kj have g1': "get_job (jobs s1) i = Some ?jb" by simp
  from get_job_SomeD [OF assms(3)] have ji: "job_id j = i" and jin: "j \<in> set (jobs s)" by simp_all
  from assms(1) have "[] \<notin> job_id ` set (jobs s)" by (simp add: store_ok_def)
  with jin ji have ne: "i \<noteq> []" by (metis imageI)
  have w: "worker_iteration pw s t1 r t2 =
             (case finish pw s1 ?jb r t2 of Inl e \<Rightarrow> (Some e, s1) | Inr s2 \<Rightarrow> (None, s2))"
    by (simp add: worker_iteration_def assms(2) g1' ne)
  show ?thesis
  proof (cases "code r = 0")
    case True
    from finish_success [OF True, of pw s1 ?jb t2] obtain s2' where
      f: "finish pw s1 ?jb r t2 = Inr s2'" and c: "config s2' = config s1"
      and ids: "map job_id (jobs s2') = map job_id (jobs s1)"
      and g: "\<forall>i'. get_job (jobs s2') i' =
              (if i' = job_id ?jb
               then map_option (\<lambda>j. j\<lparr>state := Completed, updated_at := t2\<rparr>) (get_job (jobs s1) i')
               else get_job (jobs s1) i')"
      by blast
    from w f assms(4) have "e = None" "s2 = s2'" by simp_all
    with True c ids g g1' o1 ids1 c1 ji show ?thesis by simp
  next
    case False
    show ?thesis
    proof (cases "exhausted (attempts j + 1) (max_retries j)")
      case True
      then have m: "exhausted (attempts ?jb + 1) (max_retries ?jb)" by simp
      from finish_dead [OF False m, of pw s1 t2] obtain s2' where
        f: "finish pw s1 ?jb r t2 = Inr s2'" and c: "config s2' = config s1"
        and ids: "map job_id (jobs s2') = map job_id (jobs s1)"
        and g: "\<forall>i'. get_job (jobs s2') i' =
              (if i' = job_id ?jb
               then map_option (\<lambda>j. j\<lparr>state := Dead, attempts := attempts ?jb + 1, updated_at := t2,
                                       last_error := Some (lastErr r)\<rparr>) (get_job (jobs s1) i')
               else get_job (jobs s1) i')"
        by blast
      from w f assms(4) have "e = None" "s2 = s2'" by simp_all
      with False True c ids g g1' o1 ids1 c1 ji show ?thesis by simp
    next
      case nd: False
      then have m: "\<not> exhausted (attempts ?jb + 1) (max_retries ?jb)" by simp
      show ?thesis
      proof (cases "availableAt pw (config s) t2 (attempts j + 1)")
        case (Inl err)
        then have "availableAt pw (config s1) t2 (attempts ?jb + 1) = Inl err" by (simp add: c1)
        from finish_raises [OF False m this] w assms(4) have "e = Some err" "s2 = s1" by simp_all
        with False nd Inl g1' o1 ids1 c1 show ?thesis by simp
      next
        case (Inr av)
        then have a: "availableAt pw (config s1) t2 (attempts ?jb + 1) = Inr av" by (simp add: c1)
        from finish_failed [OF False m a] obtain s2' where
          f: "finish pw s1 ?jb r t2 = Inr s2'" and c: "config s2' = config s1"
          and ids: "map job_id (jobs s2') = map job_id (jobs s1)"
          and g: "\<forall>i'. get_job (jobs s2') i' =
              (if i' = job_id ?jb
               then map_option (\<lambda>j. j\<lparr>state := Failed, attempts := attempts ?jb + 1,
                                       available_at := Some av, updated_at := t2,
                                       last_error := Some (lastErr r)\<rparr>) (get_job (jobs s1) i')
               else get_job (jobs s1) i')"
          by blast
        from w f assms(4) have "e = None" "s2 = s2'" by simp_all
        with False nd Inr c ids g g1' o1 ids1 c1 ji show ?thesis by simp
      qed
    qed
  qed
qed

subsection \<open>Submission\<close>

text \<open>
  Claim C8. A submission whose payload has no \<^verbatim>\<open>command\<close> field is rejected: the caller
  gets the validation error and the store is the one it was, so no row is created.
\<close>

theorem enqueue_missing_command:
  "p_command p = None \<Longrightarrow> enqueue s p uuid now = (Rejected, s)"
  by (simp add: enqueue_def)

theorem enqueue_missing_command_witness:
  "p_command \<lparr>p_id = Some ''job9'', p_command = None, p_max_retries = Some (JNumber 2)\<rparr> = None \<and>
   enqueue (sample_store Completed 0 3 ''2'')
     \<lparr>p_id = Some ''job9'', p_command = None, p_max_retries = Some (JNumber 2)\<rparr> ''c0ffee'' 1700000005000
   = (Rejected, sample_store Completed 0 3 ''2'')"
proof -
  have h: "p_command \<lparr>p_id = Some ''job9'', p_command = None, p_max_retries = Some (JNumber 2)\<rparr> = None"
    by simp
  show ?thesis using h enqueue_missing_command [OF h] by simp
qed

lemma map_of_insert_or_ignore:
  "map_of (insert_or_ignore key v cfg) k =
     (case map_of cfg k of Some x \<Rightarrow> Some x | None \<Rightarrow> if k = key then Some v else None)"
  by (auto simp: insert_or_ignore_def map_add_def split: option.splits)

text \<open>
  Claim C10, amended. When the payload has no \<^verbatim>\<open>max_retries\<close>, or a falsy value there
  (\<^verbatim>\<open>null\<close>, \<^verbatim>\<open>false\<close>, 0 or the empty string), the created job gets the number that
  \<^verbatim>\<open>parseInt\<close> reads from the configured \<^verbatim>\<open>max-retries\<close>, as the \<^verbatim>\<open>INTEGER\<close> column
  stores it (3 after the initialisation of a store without that key). Any other value of
  the payload is bound as it is.
\<close>

theorem enqueue_max_retries:
  assumes "enqueue s p uuid now = (Enqueued i, s')"
  shows "(\<exists>j. jobs s' = jobs s @ [j] \<and> job_id j = i \<and>
            bind_max_retries (max_retries_param (p_max_retries p) (config s)) = Some (max_retries j) \<and>
            ((case p_max_retries p of None \<Rightarrow> True | Some v \<Rightarrow> \<not> truthy v) \<longrightarrow>
               parseInt (getConfig (config s) ''max-retries'' ''3'') \<noteq> NaN \<and>
               max_retries j =
                 integer_affinity (parseInt (getConfig (config s) ''max-retries'' ''3'')))) \<and>
         (map_of (config s0) ''max-retries'' = None \<longrightarrow>
            integer_affinity (parseInt (getConfig (config (initDb s0)) ''max-retries'' ''3''))
              = SqlInt 3) \<and>
         \<not> truthy JNull \<and> \<not> truthy (JBool False) \<and> \<not> truthy (JNumber 0) \<and>
         \<not> truthy (JString [])"
proof (intro conjI)
  from assms obtain cmd where cmd: "p_command p = Some cmd" "cmd \<noteq> []"
    by (auto simp: enqueue_def split: option.splits if_splits)
  let ?cfg = "parseInt (getConfig (config s) ''max-retries'' ''3'')"
  let ?b = "bind_max_retries (max_retries_param (p_max_retries p) (config s))"
  from assms cmd obtain m where m: "?b = Some m"
    by (auto simp: enqueue_def Let_def split: option.splits if_splits)
  let ?j = "\<lparr>job_id = i, command = cmd, state = Pending, attempts = 0, max_retries = m,
             created_at = now, updated_at = now, available_at = Some now, last_error = None\<rparr>"
  from assms cmd m have s': "jobs s' = jobs s @ [?j]"
    by (auto simp: enqueue_def Let_def split: option.splits if_splits)
  have a: "(case p_max_retries p of None \<Rightarrow> True | Some v \<Rightarrow> \<not> truthy v) \<longrightarrow>
             ?cfg \<noteq> NaN \<and> m = integer_affinity ?cfg"
  proof
    assume "case p_max_retries p of None \<Rightarrow> True | Some v \<Rightarrow> \<not> truthy v"
    then have "max_retries_param (p_max_retries p) (config s) = JsNumber ?cfg"
      by (simp add: max_retries_param_def split: option.splits)
    with m show "?cfg \<noteq> NaN \<and> m = integer_affinity ?cfg"
      by (simp add: bind_max_retries_def split: if_splits)
  qed
  from s' m a show "\<exists>j. jobs s' = jobs s @ [j] \<and> job_id j = i \<and>
            ?b = Some (max_retries j) \<and>
            ((case p_max_retries p of None \<Rightarrow> True | Some v \<Rightarrow> \<not> truthy v) \<longrightarrow>
               ?cfg \<noteq> NaN \<and> max_retries j = integer_affinity ?cfg)"
    by (intro exI [of _ ?j]) simp
next
  have 3: "integer_affinity (parseInt ''3'') = SqlInt 3" by code_simp
  show "map_of (config s0) ''max-retries'' = None \<longrightarrow>
            integer_affinity (parseInt (getConfig (config (initDb s0)) ''max-retries'' ''3''))
              = SqlInt 3"
    by (simp add: initDb_def map_of_insert_or_ignore getConfig_def 3)
next
  show "\<not> truthy JNull" by (simp add: truthy_def)
  show "\<not> truthy (JBool False)" by (simp add: truthy_def)
  show "\<not> truthy (JNumber 0)" by (simp add: truthy_def round_double_def)
  show "\<not> truthy (JString [])" by (simp add: truthy_def)
qed

theorem enqueue_max_retries_witness:
  "max_retries (last (jobs (snd (enqueue (initDb empty_store)
      \<lparr>p_id = Some ''job7'', p_command = Some ''echo hi'', p_max_retries = Some (JNumber 0)\<rparr>
      ''c0ffee'' 1700000000000)))) = SqlInt 3"
proof -
  let ?p = "\<lparr>p_id = Some ''job7'', p_command = Some ''echo hi'', p_max_retries = Some (JNumber 0)\<rparr>"
  let ?e = "enqueue (initDb empty_store) ?p ''c0ffee'' 1700000000000"
  have h: "?e = (Enqueued ''job7'', snd ?e)" by code_simp
  have n: "map_of (config empty_store) ''max-retries'' = None" by (simp add: empty_store_def)
  have f: "case p_max_retries ?p of None \<Rightarrow> True | Some v \<Rightarrow> \<not> truthy v"
    by (simp add: truthy_def round_double_def)
  from enqueue_max_retries [OF h, of empty_store] n f
  obtain j where j: "jobs (snd ?e) = jobs (initDb empty_store) @ [j]"
    and m: "max_retries j =
              integer_affinity (parseInt (getConfig (config (initDb empty_store)) ''max-retries'' ''3''))"
    and c: "integer_affinity (parseInt (getConfig (config (initDb empty_store)) ''max-retries'' ''3''))
              = SqlInt 3"
    by auto
  from m c have "max_retries j = SqlInt 3" by simp
  with j show ?thesis by simp
qed

theorem enqueue_max_retries_counterexample:
  "enqueue (config_set (initDb empty_store) ''max-retries'' ''0'')
     \<lparr>p_id = Some ''job0'', p_command = Some ''echo hi'', p_max_retries = None\<rparr>
     ''c0ffee'' 1700000000000
   = (Enqueued ''job0'',
      \<lparr>jobs = [\<lparr>job_id = ''job0'', command = ''echo hi'', state = Pending, attempts = 0,
                max_retries = SqlInt 0, created_at = 1700000000000, updated_at = 1700000000000,
                available_at = Some 1700000000000, last_error = None\<rparr>],
       config = [(''backoff-base'', ''2''), (''max-retries'', ''0'')]\<rparr>) \<and>
   enqueue (initDb empty_store)
     \<lparr>p_id = Some ''job0'', p_command = Some ''echo hi'', p_max_retries = Some (JString ''0'')\<rparr>
     ''c0ffee'' 1700000000000
   = (Enqueued ''job0'',
      \<lparr>jobs = [\<lparr>job_id = ''job0'', command = ''echo hi'', state = Pending, attempts = 0,
                max_retries = SqlInt 0, created_at = 1700000000000, updated_at = 1700000000000,
                available_at = Some 1700000000000, last_error = None\<rparr>],
       config = [(''backoff-base'', ''2''), (''max-retries'', ''3'')]\<rparr>)"
  by code_simp

subsection \<open>The dead letter queue\<close>

lemma dlq_retry_unchanged: "snd (dlq_retry s i now) = s"
  by (simp add: dlq_retry_def split: option.splits)

lemma dlq_retry_result:
  "fst (dlq_retry s i now) =
     (if i \<in> job_id ` set (jobs s) then No_such_column ''pending'' else Not_found)"
proof (cases "get_job (jobs s) i")
  case None
  then show ?thesis by (simp add: dlq_retry_def get_job_None_iff [symmetric])
next
  case (Some j)
  then have "get_job (jobs s) i \<noteq> None" by simp
  then have "i \<in> job_id ` set (jobs s)" by (simp only: get_job_None_iff) simp
  with Some show ?thesis by (simp add: dlq_retry_def)
qed

text \<open>
  Claim C4. A job in a terminal state is mutated by the manual retry only, and the retry
  resets a dead job to pending with attempts 0. The command \<^verbatim>\<open>dlq retry\<close>, run on the
  id of a dead job, ends with the exception of \<^verbatim>\<open>prepare\<close> and has written nothing: the
  job is dead as before.
\<close>

theorem dlq_retry_leaves_dead_job:
  "state_of (sample_store Dead 3 3 ''2'') ''job2'' = Some Dead \<and>
   dlq_retry (sample_store Dead 3 3 ''2'') ''job2'' 1700000009000
     = (No_such_column ''pending'', sample_store Dead 3 3 ''2'') \<and>
   state_of (snd (dlq_retry (sample_store Dead 3 3 ''2'') ''job2'' 1700000009000)) ''job2''
     = Some Dead"
  by code_simp

subsection \<open>Recovery\<close>

text \<open>
  Claim C5. One run of the recovery scanner increments the attempts of a stale processing
  job, moves it to dead or to failed with a retry time, and records a synthetic
  \<^verbatim>\<open>last_error\<close> in both outcomes. On a stale job with retries left the run writes the
  state, the attempts and the retry time, and leaves \<^verbatim>\<open>last_error\<close> as it was.
\<close>

theorem recover_retry_branch_keeps_last_error:
  "recover pw (sample_store Processing 0 3 ''2'') 3600 1700003601000 =
     (None,
      \<lparr>jobs = [\<lparr>job_id = ''job2'', command = ''exit 1'', state = Failed, attempts = 1,
                max_retries = SqlInt 3, created_at = 1700000000000, updated_at = 1700003601000,
                available_at = Some 1700003603000, last_error = None\<rparr>],
       config = [(''backoff-base'', ''2''), (''max-retries'', ''3'')]\<rparr>)"
  by code_simp

lemma recover_rows_again:
  assumes "distinct (map job_id (jobs s))"
    and "filter (stale thr) (jobs s) = rows"
    and "recover_rows pw now rows s = (e, s')"
  shows "recover_rows pw now (filter (stale thr) (jobs s')) s' = (e, s') \<and>
         (e = None \<longrightarrow> filter (stale thr) (jobs s') = []) \<and>
         distinct (map job_id (jobs s')) \<and> config s' = config s"
  using assms
proof (induction rows arbitrary: s)
  case Nil
  then show ?case by simp
next
  case (Cons r rs)
  let ?a = "attempts r + 1"
  show ?case
  proof (cases "exhausted ?a (max_retries r)")
    case True
    let ?f = "\<lambda>j. j\<lparr>state := Dead, attempts := ?a, updated_at := now,
                     last_error := Some ''stale-processing-recovered''\<rparr>"
    let ?s1 = "s\<lparr>jobs := sql_update (\<lambda>j. job_id j = job_id r) ?f (jobs s)\<rparr>"
    have d: "distinct (map job_id (jobs ?s1))"
      using Cons.prems(1) by (simp add: job_ids_sql_update)
    have f: "filter (stale thr) (jobs ?s1) = rs"
    proof -
      have "\<And>j. \<not> stale thr (?f j)" by (simp add: stale_def)
      with filter_sql_update_head [OF Cons.prems(1) Cons.prems(2), of ?f] show ?thesis by simp
    qed
    have r: "recover_rows pw now rs ?s1 = (e, s')"
      using Cons.prems(3) True by (simp add: Let_def)
    from Cons.IH [OF d f r] show ?thesis by simp
  next
    case False
    show ?thesis
    proof (cases "availableAt pw (config s) now ?a")
      case (Inl err)
      with False Cons.prems(3) have "e = Some err" and "s' = s" by (auto simp: Let_def)
      with Cons.prems Inl False show ?thesis by (simp add: Let_def)
    next
      case (Inr av)
      let ?f = "\<lambda>j. j\<lparr>state := Failed, attempts := attempts j + 1,
                       available_at := Some av, updated_at := now\<rparr>"
      let ?s1 = "s\<lparr>jobs := sql_update (\<lambda>j. job_id j = job_id r) ?f (jobs s)\<rparr>"
      have d: "distinct (map job_id (jobs ?s1))"
        using Cons.prems(1) by (simp add: job_ids_sql_update)
      have f: "filter (stale thr) (jobs ?s1) = rs"
      proof -
        have "\<And>j. \<not> stale thr (?f j)" by (simp add: stale_def)
        with filter_sql_update_head [OF Cons.prems(1) Cons.prems(2), of ?f] show ?thesis by simp
      qed
      have r: "recover_rows pw now rs ?s1 = (e, s')"
        using Cons.prems(3) False Inr by (simp add: Let_def)
      from Cons.IH [OF d f r] show ?thesis by simp
    qed
  qed
qed

lemma recover_rows_result:
  assumes "distinct (map job_id (jobs s))"
    and "filter (stale thr) (jobs s) = rows"
    and "recover_rows pw now rows s = (e, s')"
    and "get_job (jobs s) i = Some j"
  shows "(\<not> stale thr j \<longrightarrow> get_job (jobs s') i = Some j) \<and>
         (stale thr j \<longrightarrow>
            (get_job (jobs s') i = Some (recovered_row pw (config s) now j) \<or>
             (e \<noteq> None \<and> get_job (jobs s') i = Some j)) \<and>
            (e = None \<longrightarrow>
               get_job (jobs s') i = Some (recovered_row pw (config s) now j) \<and>
               (\<not> exhausted (attempts j + 1) (max_retries j) \<longrightarrow>
                  (\<exists>av. availableAt pw (config s) now (attempts j + 1) = Inr av))))"
  using assms
proof (induction rows arbitrary: s j)
  case Nil
  from get_job_SomeD [OF Nil.prems(4)] have "j \<in> set (jobs s)" by simp
  with Nil.prems(2) have "\<not> stale thr j" by (auto simp: filter_empty_conv)
  with Nil.prems show ?case by simp
next
  case (Cons r rs)
  let ?a = "attempts r + 1"
  have "r \<in> set (filter (stale thr) (jobs s))" by (simp add: Cons.prems(2))
  then have rin: "r \<in> set (jobs s)" and rst: "stale thr r" by simp_all
  from get_job_member [OF Cons.prems(1) rin] have gr: "get_job (jobs s) (job_id r) = Some r" .
  from get_job_SomeD [OF Cons.prems(4)] have ji: "job_id j = i" by simp
  have step: "\<And>f s1. \<lbrakk>\<And>x. job_id (f x) = job_id x; \<And>x. \<not> stale thr (f x);
                 s1 = s\<lparr>jobs := sql_update (\<lambda>x. job_id x = job_id r) f (jobs s)\<rparr>;
                 recover_rows pw now rs s1 = (e, s'); f r = recovered_row pw (config s) now r;
                 \<not> exhausted ?a (max_retries r) \<longrightarrow> (\<exists>av. availableAt pw (config s) now ?a = Inr av)\<rbrakk>
                \<Longrightarrow> ?case"
  proof -
    fix f s1
    assume fid: "\<And>x. job_id (f x) = job_id x" and fns: "\<And>x. \<not> stale thr (f x)"
      and s1: "s1 = s\<lparr>jobs := sql_update (\<lambda>x. job_id x = job_id r) f (jobs s)\<rparr>"
      and rr: "recover_rows pw now rs s1 = (e, s')" and fr: "f r = recovered_row pw (config s) now r"
      and av: "\<not> exhausted ?a (max_retries r) \<longrightarrow> (\<exists>av. availableAt pw (config s) now ?a = Inr av)"
    have d: "distinct (map job_id (jobs s1))"
      using Cons.prems(1) by (simp add: s1 job_ids_sql_update fid)
    have fl: "filter (stale thr) (jobs s1) = rs"
      using filter_sql_update_head [OF Cons.prems(1) Cons.prems(2), of f] fns by (simp add: s1)
    have cf: "config s1 = config s" by (simp add: s1)
    show ?case
    proof (cases "i = job_id r")
      case True
      with gr Cons.prems(4) have jr: "j = r" by simp
      have g1: "get_job (jobs s1) i = Some (f r)"
        using True gr by (simp add: s1 get_job_update_by_id fid)
      from Cons.IH [OF d fl rr g1] fns have "get_job (jobs s') i = Some (f r)" by simp
      with jr fr av rst show ?thesis by simp
    next
      case False
      have g1: "get_job (jobs s1) i = Some j"
        using False Cons.prems(4) by (simp add: s1 get_job_update_by_id fid)
      from Cons.IH [OF d fl rr g1] cf show ?thesis by simp
    qed
  qed
  show ?case
  proof (cases "exhausted ?a (max_retries r)")
    case True
    let ?f = "\<lambda>j. j\<lparr>state := Dead, attempts := ?a, updated_at := now,
                     last_error := Some ''stale-processing-recovered''\<rparr>"
    show ?thesis
    proof (rule step [of ?f])
      show "recover_rows pw now rs (s\<lparr>jobs := sql_update (\<lambda>x. job_id x = job_id r) ?f (jobs s)\<rparr>) = (e, s')"
        using Cons.prems(3) True by (simp add: Let_def)
      show "?f r = recovered_row pw (config s) now r" using True by (simp add: recovered_row_def)
      show "\<not> exhausted ?a (max_retries r) \<longrightarrow> (\<exists>av. availableAt pw (config s) now ?a = Inr av)"
        using True by simp
    qed (simp_all add: stale_def)
  next
    case False
    show ?thesis
    proof (cases "availableAt pw (config s) now ?a")
      case (Inl err)
      with False Cons.prems(3) have "e = Some err" and "s' = s" by (auto simp: Let_def)
      with Cons.prems(4) show ?thesis by simp
    next
      case (Inr av)
      let ?f = "\<lambda>j. j\<lparr>state := Failed, attempts := attempts j + 1,
                       available_at := Some av, updated_at := now\<rparr>"
      show ?thesis
      proof (rule step [of ?f])
        show "recover_rows pw now rs (s\<lparr>jobs := sql_update (\<lambda>x. job_id x = job_id r) ?f (jobs s)\<rparr>) = (e, s')"
          using Cons.prems(3) False Inr by (simp add: Let_def)
        show "?f r = recovered_row pw (config s) now r" using False Inr by (simp add: recovered_row_def)
        show "\<not> exhausted ?a (max_retries r) \<longrightarrow> (\<exists>av. availableAt pw (config s) now ?a = Inr av)"
          using Inr by simp
      qed (simp_all add: stale_def)
    qed
  qed
qed

lemma recover_rows_ids:
  "recover_rows pw now rows s = (e, s') \<Longrightarrow>
     map job_id (jobs s') = map job_id (jobs s) \<and> config s' = config s"
proof (induction rows arbitrary: s)
  case Nil
  then show ?case by simp
next
  case (Cons r rs)
  show ?case
  proof (cases "exhausted (attempts r + 1) (max_retries r)")
    case True
    with Cons.prems have "recover_rows pw now rs
      (s\<lparr>jobs := sql_update (\<lambda>j. job_id j = job_id r)
                    (\<lambda>j. j\<lparr>state := Dead, attempts := attempts r + 1, updated_at := now,
                           last_error := Some ''stale-processing-recovered''\<rparr>) (jobs s)\<rparr>) = (e, s')"
      by (simp add: Let_def)
    from Cons.IH [OF this] show ?thesis by (simp add: job_ids_sql_update)
  next
    case False
    show ?thesis
    proof (cases "availableAt pw (config s) now (attempts r + 1)")
      case (Inl err)
      with False Cons.prems show ?thesis by (auto simp: Let_def)
    next
      case (Inr av)
      with False Cons.prems have "recover_rows pw now rs
        (s\<lparr>jobs := sql_update (\<lambda>j. job_id j = job_id r)
                      (\<lambda>j. j\<lparr>state := Failed, attempts := attempts j + 1,
                             available_at := Some av, updated_at := now\<rparr>) (jobs s)\<rparr>) = (e, s')"
        by (simp add: Let_def)
      from Cons.IH [OF this] show ?thesis by (simp add: job_ids_sql_update)
    qed
  qed
qed

lemma recover_ids:
  assumes "recover pw s n now = (e, s')"
  shows "map job_id (jobs s') = map job_id (jobs s) \<and> config s' = config s"
proof (cases "toISOString (new_Date (Fin (of_int now - of_int n * 1000)))")
  case (Inl err)
  with assms show ?thesis by (auto simp: recover_def)
next
  case (Inr thr)
  with assms have "recover_rows pw now (filter (stale thr) (jobs s)) s = (e, s')"
    by (simp add: recover_def)
  then show ?thesis by (rule recover_rows_ids)
qed

lemma recover_result:
  assumes "store_ok s" and "recover pw s n now = (e, s')" and "get_job (jobs s) i = Some j"
  shows "(\<not> stale (now - n * 1000) j \<longrightarrow> get_job (jobs s') i = Some j) \<and>
         (stale (now - n * 1000) j \<longrightarrow>
            (get_job (jobs s') i = Some (recovered_row pw (config s) now j) \<or>
             (e \<noteq> None \<and> get_job (jobs s') i = Some j)) \<and>
            (e = None \<longrightarrow>
               get_job (jobs s') i = Some (recovered_row pw (config s) now j) \<and>
               (\<not> exhausted (attempts j + 1) (max_retries j) \<longrightarrow>
                  (\<exists>av. availableAt pw (config s) now (attempts j + 1) = Inr av))))"
proof (cases "toISOString (new_Date (Fin (of_int now - of_int n * 1000)))")
  case (Inl err)
  with assms show ?thesis by (auto simp: recover_def)
next
  case (Inr thr)
  then have thr: "thr = now - n * 1000" by (rule staleThreshold_value)
  from assms(1) have d: "distinct (map job_id (jobs s))" by (simp add: store_ok_def)
  from assms(2) Inr have r: "recover_rows pw now (filter (stale thr) (jobs s)) s = (e, s')"
    by (simp add: recover_def)
  from recover_rows_result [OF d refl r assms(3)] thr show ?thesis by simp
qed

text \<open>
  Claim C6. Running the recovery scanner twice in succession, with the same threshold and
  at the same instant, changes no job the second time: the second run returns the store
  the first one left, and after a first run that completed no processing job is stale, so
  the second selection is empty.
\<close>

theorem recover_twice:
  assumes "store_ok s" and "recover pw s staleSeconds now = (e, s')"
  shows "recover pw s' staleSeconds now = (e, s') \<and>
         (e = None \<longrightarrow> filter (stale (now - staleSeconds * 1000)) (jobs s') = [])"
proof (cases "toISOString (new_Date (Fin (of_int now - of_int staleSeconds * 1000)))")
  case (Inl err)
  with assms(2) show ?thesis by (auto simp: recover_def)
next
  case (Inr thr)
  then have thr: "thr = now - staleSeconds * 1000" by (rule staleThreshold_value)
  from assms(1) have d: "distinct (map job_id (jobs s))" by (simp add: store_ok_def)
  from assms(2) Inr have r: "recover_rows pw now (filter (stale thr) (jobs s)) s = (e, s')"
    by (simp add: recover_def)
  from recover_rows_again [OF d refl r] Inr thr show ?thesis by (simp add: recover_def)
qed

theorem recover_twice_witness:
  "\<forall>pw. store_ok (sample_store Processing 0 3 ''2'') \<and>
     recover pw (sample_store Processing 0 3 ''2'') 3600 1700003601000 = (None, recovered_store) \<and>
     recover pw recovered_store 3600 1700003601000 = (None, recovered_store) \<and>
     filter (stale (1700003601000 - 3600 * 1000)) (jobs recovered_store) = []"
proof (rule allI)
  fix pw :: pow_impl
  have h1: "store_ok (sample_store Processing 0 3 ''2'')" by code_simp
  have h2: "recover pw (sample_store Processing 0 3 ''2'') 3600 1700003601000 = (None, recovered_store)"
    by code_simp
  from recover_twice [OF h1 h2] h1 h2
  show "store_ok (sample_store Processing 0 3 ''2'') \<and>
     recover pw (sample_store Processing 0 3 ''2'') 3600 1700003601000 = (None, recovered_store) \<and>
     recover pw recovered_store 3600 1700003601000 = (None, recovered_store) \<and>
     filter (stale (1700003601000 - 3600 * 1000)) (jobs recovered_store) = []"
    by simp
qed

subsection \<open>Failure transitions\<close>

text \<open>
  Claim C1, amended. Take a job with post-increment attempts \<open>a = attempts + 1\<close>. When
  its command fails in the worker that claimed it, and when a completed run of the
  recovery scanner finds it stale, the job is dead afterwards if and only if the test
  \<^verbatim>\<open>a >= max_retries\<close> of the program holds; for a stored integer that is
  \<open>a \<ge> max_retries\<close>. When the test fails, the job is failed afterwards whenever the
  retry instant is a valid date; in the worker, when the date is invalid, \<^verbatim>\<open>toISOString\<close>
  raises and the job stays processing.
\<close>

theorem dead_letter_boundary:
  assumes "store_ok s" and "get_job (jobs s) i = Some j"
  shows "(code r \<noteq> 0 \<and> claimTx s t1 = (Some i, s1) \<and> worker_iteration pw s t1 r t2 = (e, s2) \<longrightarrow>
            (state_of s2 i = Some Dead \<longleftrightarrow> exhausted (attempts j + 1) (max_retries j)) \<and>
            (\<not> exhausted (attempts j + 1) (max_retries j) \<longrightarrow>
               (case availableAt pw (config s) t2 (attempts j + 1) of
                  Inr av \<Rightarrow> e = None \<and> state_of s2 i = Some Failed
                | Inl err \<Rightarrow> e = Some err \<and> state_of s2 i = Some Processing))) \<and>
         (stale (now - n * 1000) j \<and> recover pw s n now = (None, s') \<longrightarrow>
            (state_of s' i = Some Dead \<longleftrightarrow> exhausted (attempts j + 1) (max_retries j)) \<and>
            (\<not> exhausted (attempts j + 1) (max_retries j) \<longrightarrow> state_of s' i = Some Failed)) \<and>
         (\<forall>m. max_retries j = SqlInt m \<longrightarrow>
            (exhausted (attempts j + 1) (max_retries j) \<longleftrightarrow> m \<le> int (attempts j + 1)))"
proof (intro conjI impI allI)
  assume w: "code r \<noteq> 0 \<and> claimTx s t1 = (Some i, s1) \<and> worker_iteration pw s t1 r t2 = (e, s2)"
  then have c: "claimTx s t1 = (Some i, s1)" and wi: "worker_iteration pw s t1 r t2 = (e, s2)"
    and f: "code r \<noteq> 0" by simp_all
  note wr = worker_result [OF assms(1) c assms(2) wi]
  show "state_of s2 i = Some Dead \<longleftrightarrow> exhausted (attempts j + 1) (max_retries j)"
  proof (cases "exhausted (attempts j + 1) (max_retries j)")
    case True
    with wr f show ?thesis by (simp add: state_of_def)
  next
    case False
    with wr f show ?thesis
      by (cases "availableAt pw (config s) t2 (attempts j + 1)") (simp_all add: state_of_def)
  qed
  assume lt: "\<not> exhausted (attempts j + 1) (max_retries j)"
  with wr f show "case availableAt pw (config s) t2 (attempts j + 1) of
                  Inr av \<Rightarrow> e = None \<and> state_of s2 i = Some Failed
                | Inl err \<Rightarrow> e = Some err \<and> state_of s2 i = Some Processing"
    by (cases "availableAt pw (config s) t2 (attempts j + 1)") (simp_all add: state_of_def)
next
  assume r: "stale (now - n * 1000) j \<and> recover pw s n now = (None, s')"
  then have st: "stale (now - n * 1000) j" and rc: "recover pw s n now = (None, s')" by simp_all
  from recover_result [OF assms(1) rc assms(2)] st
  have g: "get_job (jobs s') i = Some (recovered_row pw (config s) now j)"
    and av: "\<not> exhausted (attempts j + 1) (max_retries j) \<longrightarrow>
              (\<exists>av. availableAt pw (config s) now (attempts j + 1) = Inr av)"
    by simp_all
  show "state_of s' i = Some Dead \<longleftrightarrow> exhausted (attempts j + 1) (max_retries j)"
    using g av by (auto simp: state_of_def recovered_row_def)
  assume "\<not> exhausted (attempts j + 1) (max_retries j)"
  with g av show "state_of s' i = Some Failed"
    by (auto simp: state_of_def recovered_row_def)
next
  fix m assume "max_retries j = SqlInt m"
  then show "exhausted (attempts j + 1) (max_retries j) \<longleftrightarrow> m \<le> int (attempts j + 1)"
    by (simp add: exhausted_def)
qed

theorem dead_letter_boundary_witness:
  "\<forall>pw.
   state_of (snd (worker_iteration pw (sample_store Pending 0 3 ''2'') 1700000001000 command_failed
                    1700000002000)) ''job2'' = Some Failed \<and>
   state_of (snd (worker_iteration pw (sample_store Pending 1 2 ''2'') 1700000001000 command_failed
                    1700000002000)) ''job2'' = Some Dead \<and>
   state_of (snd (recover pw (sample_store Processing 0 3 ''2'') 3600 1700003601000)) ''job2''
     = Some Failed \<and>
   state_of (snd (recover pw (sample_store Processing 2 3 ''2'') 3600 1700003601000)) ''job2''
     = Some Dead"
proof (rule allI)
  fix pw :: pow_impl
  have ok: "\<And>st a m. store_ok (sample_store st a m ''2'')"
    by (simp add: store_ok_def sample_store_def sample_job_def)
  have gj: "\<And>st a m. get_job (jobs (sample_store st a m ''2'')) ''job2'' = Some (sample_job st a m)"
    by (simp add: get_job_def sample_store_def sample_job_def)
  have f: "code command_failed \<noteq> 0" by (simp add: command_failed_def)
  have c1: "claimTx (sample_store Pending 0 3 ''2'') 1700000001000 =
              (Some ''job2'', snd (claimTx (sample_store Pending 0 3 ''2'') 1700000001000))"
    by code_simp
  have c2: "claimTx (sample_store Pending 1 2 ''2'') 1700000001000 =
              (Some ''job2'', snd (claimTx (sample_store Pending 1 2 ''2'') 1700000001000))"
    by code_simp
  have a1: "availableAt pw (config (sample_store Pending 0 3 ''2'')) 1700000002000 1 = Inr 1700000004000"
    by code_simp
  have r1: "recover pw (sample_store Processing 0 3 ''2'') 3600 1700003601000 =
              (None, snd (recover pw (sample_store Processing 0 3 ''2'') 3600 1700003601000))"
    by code_simp
  have r2: "recover pw (sample_store Processing 2 3 ''2'') 3600 1700003601000 =
              (None, snd (recover pw (sample_store Processing 2 3 ''2'') 3600 1700003601000))"
    by code_simp
  have st: "\<And>a m. stale (1700003601000 - 3600 * 1000) (sample_job Processing a m)"
    by (simp add: stale_def sample_job_def)
  have att: "\<And>st a m. attempts (sample_job st a m) = a \<and> max_retries (sample_job st a m) = SqlInt m"
    by (simp add: sample_job_def)
  have ex: "\<And>a m. exhausted a (SqlInt m) = (m \<le> int a)" by (simp add: exhausted_def)
  from dead_letter_boundary [OF ok gj, of command_failed Pending 0 3 1700000001000
         "snd (claimTx (sample_store Pending 0 3 ''2'') 1700000001000)" pw 1700000002000
         "fst (worker_iteration pw (sample_store Pending 0 3 ''2'') 1700000001000 command_failed 1700000002000)"
         "snd (worker_iteration pw (sample_store Pending 0 3 ''2'') 1700000001000 command_failed 1700000002000)"]
       f c1 a1 att ex
  have 1: "state_of (snd (worker_iteration pw (sample_store Pending 0 3 ''2'') 1700000001000
                            command_failed 1700000002000)) ''job2'' = Some Failed"
    by simp
  from dead_letter_boundary [OF ok gj, of command_failed Pending 1 2 1700000001000
         "snd (claimTx (sample_store Pending 1 2 ''2'') 1700000001000)" pw 1700000002000
         "fst (worker_iteration pw (sample_store Pending 1 2 ''2'') 1700000001000 command_failed 1700000002000)"
         "snd (worker_iteration pw (sample_store Pending 1 2 ''2'') 1700000001000 command_failed 1700000002000)"]
       f c2 att ex
  have 2: "state_of (snd (worker_iteration pw (sample_store Pending 1 2 ''2'') 1700000001000
                            command_failed 1700000002000)) ''job2'' = Some Dead"
    by simp
  from dead_letter_boundary [OF ok gj, of _ Processing 0 3 _ _ pw _ _ _ 1700003601000 3600
         "snd (recover pw (sample_store Processing 0 3 ''2'') 3600 1700003601000)"]
       st r1 att ex
  have 3: "state_of (snd (recover pw (sample_store Processing 0 3 ''2'') 3600 1700003601000)) ''job2''
             = Some Failed"
    by simp
  from dead_letter_boundary [OF ok gj, of _ Processing 2 3 _ _ pw _ _ _ 1700003601000 3600
         "snd (recover pw (sample_store Processing 2 3 ''2'') 3600 1700003601000)"]
       st r2 att ex
  have 4: "state_of (snd (recover pw (sample_store Processing 2 3 ''2'') 3600 1700003601000)) ''job2''
             = Some Dead"
    by simp
  from 1 2 3 4
  show "state_of (snd (worker_iteration pw (sample_store Pending 0 3 ''2'') 1700000001000 command_failed
                    1700000002000)) ''job2'' = Some Failed \<and>
   state_of (snd (worker_iteration pw (sample_store Pending 1 2 ''2'') 1700000001000 command_failed
                    1700000002000)) ''job2'' = Some Dead \<and>
   state_of (snd (recover pw (sample_store Processing 0 3 ''2'') 3600 1700003601000)) ''job2''
     = Some Failed \<and>
   state_of (snd (recover pw (sample_store Processing 2 3 ''2'') 3600 1700003601000)) ''job2''
     = Some Dead"
    by simp
qed

theorem dead_letter_boundary_counterexample:
  "\<forall>pw.
   code command_failed \<noteq> 0 \<and>
   fst (claimTx (sample_store Pending 0 3 ''10000000000000'') 1700000001000) = Some ''job2'' \<and>
   \<not> exhausted (attempts (sample_job Pending 0 3) + 1) (max_retries (sample_job Pending 0 3)) \<and>
   max_retries (sample_job Pending 0 3) = SqlInt 3 \<and>
   fst (worker_iteration pw (sample_store Pending 0 3 ''10000000000000'') 1700000001000 command_failed
          1700000002000) = Some RangeError \<and>
   state_of (snd (worker_iteration pw (sample_store Pending 0 3 ''10000000000000'') 1700000001000
                    command_failed 1700000002000)) ''job2'' = Some Processing"
proof (rule allI)
  fix pw :: pow_impl
  show "code command_failed \<noteq> 0 \<and>
   fst (claimTx (sample_store Pending 0 3 ''10000000000000'') 1700000001000) = Some ''job2'' \<and>
   \<not> exhausted (attempts (sample_job Pending 0 3) + 1) (max_retries (sample_job Pending 0 3)) \<and>
   max_retries (sample_job Pending 0 3) = SqlInt 3 \<and>
   fst (worker_iteration pw (sample_store Pending 0 3 ''10000000000000'') 1700000001000 command_failed
          1700000002000) = Some RangeError \<and>
   state_of (snd (worker_iteration pw (sample_store Pending 0 3 ''10000000000000'') 1700000001000
                    command_failed 1700000002000)) ''job2'' = Some Processing"
    by code_simp
qed




subsection \<open>The claim protocol\<close>

lemma eligible_iff:
  "eligible now j \<longleftrightarrow>
     (state j = Pending \<or>
      state j = Failed \<and>
      (\<exists>a. available_at j = Some a \<and>
           - 62167219200000 \<le> a \<and> a \<le> 253402300799999 \<and>
           - 62167219200000 \<le> now \<and> now \<le> 253402300799999 \<and>
           a div 1000 \<le> now div 1000))"
  by (auto simp: eligible_def sql_datetime_def split: option.splits)

text \<open>
  Claim C3, amended. One run of the claim transaction selects an oldest (by
  \<^verbatim>\<open>created_at\<close>) job among those that are pending, or failed with \<^verbatim>\<open>available_at\<close>, cut
  to whole seconds, at or before the current instant cut to whole seconds; it updates
  that job to processing under the guard that its state is pending or failed, and returns
  its id exactly when the update changes one row. When no job is eligible it reports no
  job claimed and leaves the store as it is. A failed job whose \<^verbatim>\<open>available_at\<close> lies in
  a later second than the current instant, or is absent, is never claimed.
\<close>

theorem claim_protocol:
  assumes "store_ok s" and "claimTx s now = (res, s')"
  shows "(res = None \<longleftrightarrow> (\<forall>j \<in> set (jobs s). \<not> eligible now j)) \<and>
         (res = None \<longrightarrow> s' = s) \<and>
         (\<forall>i. res = Some i \<longrightarrow>
            (\<exists>j \<in> set (jobs s). job_id j = i \<and> eligible now j \<and>
               (\<forall>k \<in> set (jobs s). eligible now k \<longrightarrow> created_at j \<le> created_at k) \<and>
               get_job (jobs s') i = Some (j\<lparr>state := Processing, updated_at := now\<rparr>) \<and>
               (\<forall>i'. i' \<noteq> i \<longrightarrow> get_job (jobs s') i' = get_job (jobs s) i'))) \<and>
         (\<forall>i. res = Some i \<longleftrightarrow>
            candidate (jobs s) now = Some i \<and> sql_changes (claimable i) (jobs s) = 1) \<and>
         (\<forall>j. eligible now j \<longleftrightarrow>
            (state j = Pending \<or>
             state j = Failed \<and>
             (\<exists>a. available_at j = Some a \<and>
                  - 62167219200000 \<le> a \<and> a \<le> 253402300799999 \<and>
                  - 62167219200000 \<le> now \<and> now \<le> 253402300799999 \<and>
                  a div 1000 \<le> now div 1000))) \<and>
         (\<forall>j \<in> set (jobs s).
            state j = Failed \<and>
            (case available_at j of None \<Rightarrow> True | Some a \<Rightarrow> now div 1000 < a div 1000) \<longrightarrow>
            res \<noteq> Some (job_id j))"
proof (intro conjI)
  from claimTx_None [OF assms(1), of now] assms(2)
  show "res = None \<longleftrightarrow> (\<forall>j \<in> set (jobs s). \<not> eligible now j)" by simp
  show "res = None \<longrightarrow> s' = s"
    using claimTx_None_unchanged [OF assms(1)] assms(2) by blast
  show "\<forall>i. res = Some i \<longrightarrow>
            (\<exists>j \<in> set (jobs s). job_id j = i \<and> eligible now j \<and>
               (\<forall>k \<in> set (jobs s). eligible now k \<longrightarrow> created_at j \<le> created_at k) \<and>
               get_job (jobs s') i = Some (j\<lparr>state := Processing, updated_at := now\<rparr>) \<and>
               (\<forall>i'. i' \<noteq> i \<longrightarrow> get_job (jobs s') i' = get_job (jobs s) i'))"
  proof (intro allI impI)
    fix i assume "res = Some i"
    with assms(2) have "claimTx s now = (Some i, s')" by simp
    from claimTx_Some [OF assms(1) this]
    show "\<exists>j \<in> set (jobs s). job_id j = i \<and> eligible now j \<and>
               (\<forall>k \<in> set (jobs s). eligible now k \<longrightarrow> created_at j \<le> created_at k) \<and>
               get_job (jobs s') i = Some (j\<lparr>state := Processing, updated_at := now\<rparr>) \<and>
               (\<forall>i'. i' \<noteq> i \<longrightarrow> get_job (jobs s') i' = get_job (jobs s) i')"
      by blast
  qed
  show "\<forall>i. res = Some i \<longleftrightarrow>
            candidate (jobs s) now = Some i \<and> sql_changes (claimable i) (jobs s) = 1"
  proof (cases "candidate (jobs s) now")
    case None
    with assms(2) show ?thesis by (simp add: claimTx_def)
  next
    case (Some c)
    show ?thesis
    proof (cases "sql_changes (claimable c) (jobs s) = 1")
      case True
      with Some assms(2) have "res = Some c" by (simp add: claimTx_def Let_def)
      with Some True show ?thesis by auto
    next
      case False
      with Some assms(2) have "res = None" by (simp add: claimTx_def Let_def)
      with Some False show ?thesis by auto
    qed
  qed
  show "\<forall>j. eligible now j \<longleftrightarrow>
            (state j = Pending \<or>
             state j = Failed \<and>
             (\<exists>a. available_at j = Some a \<and>
                  - 62167219200000 \<le> a \<and> a \<le> 253402300799999 \<and>
                  - 62167219200000 \<le> now \<and> now \<le> 253402300799999 \<and>
                  a div 1000 \<le> now div 1000))"
    by (intro allI) (rule eligible_iff)
  show "\<forall>j \<in> set (jobs s).
            state j = Failed \<and>
            (case available_at j of None \<Rightarrow> True | Some a \<Rightarrow> now div 1000 < a div 1000) \<longrightarrow>
            res \<noteq> Some (job_id j)"
  proof (intro ballI impI notI)
    fix j
    assume j: "j \<in> set (jobs s)"
      and w: "state j = Failed \<and>
              (case available_at j of None \<Rightarrow> True | Some a \<Rightarrow> now div 1000 < a div 1000)"
      and r: "res = Some (job_id j)"
    from r assms(2) have "claimTx s now = (Some (job_id j), s')" by simp
    from claimTx_Some [OF assms(1) this] obtain k where
      k: "k \<in> set (jobs s)" "job_id k = job_id j" "eligible now k" by blast
    from assms(1) have d: "distinct (map job_id (jobs s))" by (simp add: store_ok_def)
    from get_job_member [OF d k(1)] have "get_job (jobs s) (job_id j) = Some k" by (simp only: k(2))
    with get_job_member [OF d j] have "k = j" by (simp only: option.inject)
    with k(3) w show False by (auto simp: eligible_iff)
  qed
qed

theorem claim_protocol_witness:
  "fst (claimTx (sample_store Pending 0 3 ''2'') 1700000001000) = Some ''job2'' \<and>
   state_of (snd (claimTx (sample_store Pending 0 3 ''2'') 1700000001000)) ''job2''
     = Some Processing \<and>
   fst (claimTx waiting_store 1700000001000) = None"
proof -
  let ?s = "sample_store Pending 0 3 ''2''"
  let ?c = "claimTx ?s 1700000001000"
  have ok: "store_ok ?s" by (simp add: store_ok_def sample_store_def sample_job_def)
  have js: "jobs ?s = [sample_job Pending 0 3]" by (simp add: sample_store_def)
  have el: "eligible 1700000001000 (sample_job Pending 0 3)"
    by (simp add: eligible_def sample_job_def)
  have p: "?c = (fst ?c, snd ?c)" by simp
  note T = claim_protocol [OF ok p]
  from T have "fst ?c = None \<longleftrightarrow> (\<forall>j \<in> set (jobs ?s). \<not> eligible 1700000001000 j)"
    by (rule conjunct1)
  with el js have "fst ?c \<noteq> None" by simp
  then obtain i where i: "fst ?c = Some i" by auto
  with T obtain j where j: "j \<in> set (jobs ?s)" "job_id j = i"
    and g: "get_job (jobs (snd ?c)) i = Some (j\<lparr>state := Processing, updated_at := 1700000001000\<rparr>)"
    by blast
  from j js have "i = ''job2''" by (simp add: sample_job_def)
  with i g have 1: "fst ?c = Some ''job2''" and 2: "state_of (snd ?c) ''job2'' = Some Processing"
    by (simp_all add: state_of_def)
  let ?w = "claimTx waiting_store 1700000001000"
  have ok': "store_ok waiting_store" by (simp add: store_ok_def waiting_store_def)
  have p': "?w = (fst ?w, snd ?w)" by simp
  have "\<forall>j \<in> set (jobs waiting_store). \<not> eligible 1700000001000 j"
    by (simp add: waiting_store_def eligible_def sql_datetime_def)
  with claim_protocol [OF ok' p', THEN conjunct1] have 3: "fst ?w = None" by (simp only:)
  from 1 2 3 show ?thesis by simp
qed

theorem claim_protocol_counterexample:
  "state_of waiting_store ''job2'' = Some Failed \<and>
   available_at_of waiting_store ''job2'' = Some 1700000002900 \<and>
   (1700000002100 :: int) < 1700000002900 \<and>
   fst (claimTx waiting_store 1700000002100) = Some ''job2'' \<and>
   state_of (snd (claimTx waiting_store 1700000002100)) ''job2'' = Some Processing"
  by code_simp

subsection \<open>The attempt counter\<close>

lemma attempts_of_sql_update:
  assumes "\<And>j. job_id (f j) = job_id j" and "\<And>j. attempts (f j) = attempts j"
  shows "attempts_of (s\<lparr>jobs := sql_update P f (jobs s)\<rparr>) i = attempts_of s i"
  by (cases "get_job (jobs s) i") (simp_all add: attempts_of_def get_job_sql_update assms)

lemma attempts_claimTx: "attempts_of (snd (claimTx s now)) i = attempts_of s i"
proof (cases "candidate (jobs s) now")
  case None
  then show ?thesis by (simp add: claimTx_def)
next
  case (Some c)
  have "attempts_of (s\<lparr>jobs := sql_update (claimable c)
                (\<lambda>j. j\<lparr>state := Processing, updated_at := now\<rparr>) (jobs s)\<rparr>) i = attempts_of s i"
    by (rule attempts_of_sql_update) simp_all
  with Some show ?thesis by (simp add: claimTx_def Let_def)
qed

lemma get_job_append:
  "get_job js i = Some j \<Longrightarrow> get_job (js @ ks) i = Some j"
  by (induction js) (auto simp: get_job_def)

lemma attempts_enqueue:
  assumes "attempts_of s i = Some a"
  shows "attempts_of (snd (enqueue s p uuid now)) i = Some a"
proof -
  from assms obtain j where j: "get_job (jobs s) i = Some j" "attempts j = a"
    by (auto simp: attempts_of_def)
  have "get_job (jobs (snd (enqueue s p uuid now))) i = Some j"
    using j(1) by (auto simp: enqueue_def Let_def get_job_append split: option.splits)
  with j(2) show ?thesis by (simp add: attempts_of_def)
qed

lemma attempts_worker:
  assumes "store_ok s" and "attempts_of s i = Some a"
    and "worker_iteration pw s t1 r t2 = (e, s2)"
  shows "attempts_of s2 i =
           Some (if code r \<noteq> 0 \<and> fst (claimTx s t1) = Some i \<and> e = None then a + 1 else a)"
proof (cases "fst (claimTx s t1)")
  case None
  then have c: "claimTx s t1 = (None, snd (claimTx s t1))" by (metis prod.collapse)
  from claimTx_None_unchanged [OF assms(1) c] c assms(3) have "s2 = s"
    by (simp add: worker_iteration_def)
  with assms(2) None show ?thesis by simp
next
  case (Some c)
  then have cl: "claimTx s t1 = (Some c, snd (claimTx s t1))" by (metis prod.collapse)
  from claimTx_Some [OF assms(1) cl] obtain k where k: "k \<in> set (jobs s)" "job_id k = c" by blast
  from assms(1) have "distinct (map job_id (jobs s))" by (simp add: store_ok_def)
  from get_job_member [OF this k(1)] k(2) have gk: "get_job (jobs s) c = Some k" by simp
  note wr = worker_result [OF assms(1) cl gk assms(3)]
  show ?thesis
  proof (cases "i = c")
    case False
    with wr assms(2) Some show ?thesis by (simp add: attempts_of_def)
  next
    case True
    with gk assms(2) have ak: "attempts k = a" by (simp add: attempts_of_def)
    show ?thesis
    proof (cases "code r = 0")
      case z: True
      with wr True ak show ?thesis by (simp add: attempts_of_def)
    next
      case nz: False
      show ?thesis
      proof (cases "exhausted (attempts k + 1) (max_retries k)")
        case d: True
        with wr nz True ak Some show ?thesis by (simp add: attempts_of_def)
      next
        case nd: False
        with wr nz True ak Some show ?thesis
          by (cases "availableAt pw (config s) t2 (attempts k + 1)") (simp_all add: attempts_of_def)
      qed
    qed
  qed
qed

lemma attempts_recover:
  assumes "store_ok s" and "get_job (jobs s) i = Some j" and "recover pw s n now = (e, s')"
  shows "attempts_of s' i =
           Some (if stale (now - n * 1000) j \<and> state_of s' i \<noteq> Some Processing
                 then attempts j + 1 else attempts j)"
proof -
  note rr = recover_result [OF assms(1) assms(3) assms(2)]
  show ?thesis
  proof (cases "stale (now - n * 1000) j")
    case False
    with rr show ?thesis by (simp add: attempts_of_def)
  next
    case True
    then have p: "state j = Processing" by (simp add: stale_def)
    from rr True have "get_job (jobs s') i = Some (recovered_row pw (config s) now j) \<or>
                       get_job (jobs s') i = Some j" by blast
    then show ?thesis
    proof
      assume "get_job (jobs s') i = Some j"
      with p show ?thesis by (simp add: attempts_of_def state_of_def)
    next
      assume "get_job (jobs s') i = Some (recovered_row pw (config s) now j)"
      with True p show ?thesis
        by (auto simp: attempts_of_def state_of_def recovered_row_def split: sum.splits)
    qed
  qed
qed

lemma store_ok_run_op:
  assumes "store_ok s" and "\<And>p uuid now. op = Op_enqueue p uuid now \<Longrightarrow> uuid \<noteq> []"
  shows "store_ok (run_op pw op s)"
proof (cases op)
  case Op_init
  have "\<And>k v cfg. distinct (map fst cfg) \<Longrightarrow> distinct (map fst (insert_or_ignore k v cfg))"
    by (auto simp: insert_or_ignore_def map_of_eq_None_iff)
  with assms Op_init show ?thesis by (simp add: store_ok_def initDb_def)
next
  case (Op_enqueue p uuid now)
  with assms show ?thesis
    by (auto simp: store_ok_def enqueue_def Let_def split: option.splits)
next
  case (Op_worker t1 r t2)
  show ?thesis
  proof (cases "fst (claimTx s t1)")
    case None
    then have c: "claimTx s t1 = (None, snd (claimTx s t1))" by (metis prod.collapse)
    from claimTx_None_unchanged [OF assms(1) c] c have "snd (worker_iteration pw s t1 r t2) = s"
      by (simp add: worker_iteration_def)
    with assms Op_worker show ?thesis by simp
  next
    case (Some c)
    then have cl: "claimTx s t1 = (Some c, snd (claimTx s t1))" by (metis prod.collapse)
    from claimTx_Some [OF assms(1) cl] obtain k where k: "k \<in> set (jobs s)" "job_id k = c" by blast
    from assms(1) have "distinct (map job_id (jobs s))" by (simp add: store_ok_def)
    from get_job_member [OF this k(1)] k(2) have gk: "get_job (jobs s) c = Some k" by simp
    have "worker_iteration pw s t1 r t2 =
            (fst (worker_iteration pw s t1 r t2), snd (worker_iteration pw s t1 r t2))" by simp
    from worker_result [OF assms(1) cl gk this] assms(1) Op_worker show ?thesis
      by (simp add: store_ok_def)
  qed
next
  case (Op_dlq_retry i now)
  with assms show ?thesis by (simp add: dlq_retry_unchanged)
next
  case (Op_config_set key v)
  have "distinct (map fst (config s)) \<Longrightarrow> distinct (map fst (insert_or_replace key v (config s)))"
    by (auto simp: insert_or_replace_def distinct_map_filter)
  with assms Op_config_set show ?thesis by (simp add: store_ok_def config_set_def)
next
  case (Op_recover n now)
  have "recover pw s n now = (fst (recover pw s n now), snd (recover pw s n now))" by simp
  from recover_ids [OF this] assms Op_recover show ?thesis by (simp add: store_ok_def)
qed

text \<open>
  In a sequence of commands each of which runs to its end before the next begins, a
  command adds one to the attempts of a job when it is a failure transition of that job,
  and leaves them as they are otherwise: success, claim, submission, configuration and
  the manual retry change no attempts.
\<close>

lemma attempts_run_op:
  assumes "store_ok s" and "attempts_of s i = Some a"
  shows "attempts_of (run_op pw op s) i = Some (if failure_transition pw op s i then a + 1 else a)"
proof (cases op)
  case Op_init
  with assms(2) show ?thesis by (simp add: initDb_def attempts_of_def)
next
  case (Op_enqueue p uuid now)
  with attempts_enqueue [OF assms(2)] show ?thesis by simp
next
  case (Op_worker u1 r' u2)
  have "worker_iteration pw s u1 r' u2 =
          (fst (worker_iteration pw s u1 r' u2), snd (worker_iteration pw s u1 r' u2))" by simp
  from attempts_worker [OF assms this] Op_worker show ?thesis by simp
next
  case (Op_dlq_retry x y)
  with assms(2) show ?thesis by (simp add: dlq_retry_unchanged)
next
  case (Op_config_set key v)
  with assms(2) show ?thesis by (simp add: config_set_def attempts_of_def)
next
  case (Op_recover m u)
  from assms(2) obtain j where j: "get_job (jobs s) i = Some j" "attempts j = a"
    by (auto simp: attempts_of_def)
  have "recover pw s m u = (fst (recover pw s m u), snd (recover pw s m u))" by simp
  from attempts_recover [OF assms(1) j(1) this] j Op_recover show ?thesis by simp
qed

text \<open>
  Claim C7. Attempts grow by one in a failure transition, never decrease otherwise, and
  the manual retry sets them to exactly 0. The command \<^verbatim>\<open>dlq retry\<close>, run on the id of a
  dead job with attempts 3, ends with the exception of \<^verbatim>\<open>prepare\<close>: the attempts of the
  job are 3 afterwards, not 0.
\<close>

theorem dlq_retry_keeps_attempts:
  "attempts_of (sample_store Dead 3 3 ''2'') ''job2'' = Some 3 \<and>
   fst (dlq_retry (sample_store Dead 3 3 ''2'') ''job2'' 1700000009000) = No_such_column ''pending'' \<and>
   attempts_of (snd (dlq_retry (sample_store Dead 3 3 ''2'') ''job2'' 1700000009000)) ''job2''
     = Some 3 \<and>
   attempts_of (snd (dlq_retry (sample_store Dead 3 3 ''2'') ''job2'' 1700000009000)) ''job2''
     \<noteq> Some 0"
  by code_simp

subsection \<open>Terminal jobs\<close>

lemma store_ok_empty: "store_ok empty_store"
  by (simp add: store_ok_def empty_store_def)

text \<open>
  In a sequence of commands each of which runs to its end before the next begins, every
  command leaves a completed or dead job as it is.
\<close>

lemma terminal_unchanged:
  assumes "store_ok s" and "get_job (jobs s) i = Some j"
    and "state j = Completed \<or> state j = Dead"
  shows "get_job (jobs (run_op pw op s)) i = Some j"
proof (cases op)
  case Op_init
  with assms(2) show ?thesis by (simp add: initDb_def)
next
  case (Op_enqueue p uuid now)
  with assms(2) show ?thesis
    by (auto simp: enqueue_def Let_def get_job_append split: option.splits)
next
  case (Op_worker t1 r t2)
  show ?thesis
  proof (cases "fst (claimTx s t1)")
    case None
    then have c: "claimTx s t1 = (None, snd (claimTx s t1))" by (metis prod.collapse)
    from claimTx_None_unchanged [OF assms(1) c] c have "snd (worker_iteration pw s t1 r t2) = s"
      by (simp add: worker_iteration_def)
    with assms(2) Op_worker show ?thesis by simp
  next
    case (Some c)
    then have cl: "claimTx s t1 = (Some c, snd (claimTx s t1))" by (metis prod.collapse)
    from claimTx_Some [OF assms(1) cl] obtain k where
      k: "k \<in> set (jobs s)" "job_id k = c" "eligible t1 k" by blast
    from assms(1) have "distinct (map job_id (jobs s))" by (simp add: store_ok_def)
    from get_job_member [OF this k(1)] k(2) have gk: "get_job (jobs s) c = Some k" by simp
    from k(3) assms(3) have "k \<noteq> j" by (auto simp: eligible_def)
    with gk assms(2) have ne: "i \<noteq> c" by auto
    have "worker_iteration pw s t1 r t2 =
            (fst (worker_iteration pw s t1 r t2), snd (worker_iteration pw s t1 r t2))" by simp
    from worker_result [OF assms(1) cl gk this] ne assms(2) Op_worker show ?thesis by simp
  qed
next
  case (Op_dlq_retry x y)
  with assms(2) show ?thesis by (simp add: dlq_retry_unchanged)
next
  case (Op_config_set key v)
  with assms(2) show ?thesis by (simp add: config_set_def)
next
  case (Op_recover n now)
  have r: "recover pw s n now = (fst (recover pw s n now), snd (recover pw s n now))" by simp
  from assms(3) have "\<not> stale (now - n * 1000) j" by (auto simp: stale_def)
  with recover_result [OF assms(1) r assms(2)] Op_recover show ?thesis by simp
qed

subsection \<open>Claims of several workers\<close>

lemma claimTx_rows:
  assumes "store_ok s" and "claimTx s t = (r, s1)"
  shows "store_ok s1 \<and>
         (\<forall>i. state_of s i = Some Processing \<longrightarrow> state_of s1 i = Some Processing) \<and>
         (\<forall>i. r = Some i \<longrightarrow> state_of s i \<noteq> Some Processing \<and> state_of s1 i = Some Processing)"
proof (cases r)
  case None
  with claimTx_None_unchanged [OF assms(1)] assms(2) have "s1 = s" by simp
  with assms(1) None show ?thesis by simp
next
  case (Some c)
  with assms(2) have cl: "claimTx s t = (Some c, s1)" by simp
  from claimTx_Some [OF assms(1) cl] obtain j where j: "j \<in> set (jobs s)" "job_id j = c" "eligible t j"
    and g: "get_job (jobs s1) c = Some (j\<lparr>state := Processing, updated_at := t\<rparr>)"
    and o: "\<forall>i'. i' \<noteq> c \<longrightarrow> get_job (jobs s1) i' = get_job (jobs s) i'"
    and ids: "map job_id (jobs s1) = map job_id (jobs s)" and cfg: "config s1 = config s"
    by blast
  from assms(1) have d: "distinct (map job_id (jobs s))" by (simp add: store_ok_def)
  from get_job_member [OF d j(1)] j(2) have gj: "get_job (jobs s) c = Some j" by simp
  from j(3) have ns: "state j \<noteq> Processing" by (auto simp: eligible_def)
  have ok1: "store_ok s1" using assms(1) by (simp add: store_ok_def ids cfg)
  have p: "\<forall>i. state_of s i = Some Processing \<longrightarrow> state_of s1 i = Some Processing"
  proof (intro allI impI)
    fix i assume a: "state_of s i = Some Processing"
    show "state_of s1 i = Some Processing"
    proof (cases "i = c")
      case True
      with g show ?thesis by (simp add: state_of_def)
    next
      case False
      with o a show ?thesis by (simp add: state_of_def)
    qed
  qed
  have q: "\<forall>i. r = Some i \<longrightarrow> state_of s i \<noteq> Some Processing \<and> state_of s1 i = Some Processing"
    using Some gj ns g by (simp add: state_of_def)
  from ok1 p q show ?thesis by blast
qed

lemma claim_attempts_rows:
  assumes "store_ok s" and "claim_attempts s ts = (rs, s')"
  shows "store_ok s' \<and>
         (\<forall>i. state_of s i = Some Processing \<longrightarrow> state_of s' i = Some Processing) \<and>
         (\<forall>i. Some i \<in> set rs \<longrightarrow> state_of s i \<noteq> Some Processing \<and> state_of s' i = Some Processing) \<and>
         (\<forall>i. length (filter (\<lambda>r. r = Some i) rs) \<le> 1) \<and> length rs = length ts"
  using assms
proof (induction ts arbitrary: s rs s')
  case Nil
  then show ?case by simp
next
  case (Cons t ts)
  obtain r s1 where c: "claimTx s t = (r, s1)" by (cases "claimTx s t")
  obtain rs1 s2 where ca: "claim_attempts s1 ts = (rs1, s2)" by (cases "claim_attempts s1 ts")
  from Cons.prems(2) c ca have rs: "rs = r # rs1" and s': "s' = s2" by simp_all
  note cr = claimTx_rows [OF Cons.prems(1) c]
  from cr have ok1: "store_ok s1" by simp
  note ih = Cons.IH [OF ok1 ca]
  from ih s' have 1: "store_ok s'" by simp
  from cr ih s' have 2: "\<forall>i. state_of s i = Some Processing \<longrightarrow> state_of s' i = Some Processing"
    by blast
  have 3: "\<forall>i. Some i \<in> set rs \<longrightarrow> state_of s i \<noteq> Some Processing \<and> state_of s' i = Some Processing"
  proof (intro allI impI)
    fix i assume "Some i \<in> set rs"
    with rs consider "r = Some i" | "Some i \<in> set rs1" by auto
    then show "state_of s i \<noteq> Some Processing \<and> state_of s' i = Some Processing"
    proof cases
      case 1
      with cr ih s' show ?thesis by blast
    next
      case 2
      with cr ih s' show ?thesis by blast
    qed
  qed
  have 4: "\<forall>i. length (filter (\<lambda>r. r = Some i) rs) \<le> 1"
  proof
    fix i
    show "length (filter (\<lambda>r. r = Some i) rs) \<le> 1"
    proof (cases "r = Some i")
      case True
      with cr have "state_of s1 i = Some Processing" by simp
      with ih have "Some i \<notin> set rs1" by blast
      then have "filter (\<lambda>r. r = Some i) rs1 = []" by (auto simp: filter_empty_conv)
      with True rs show ?thesis by simp
    next
      case False
      with ih rs show ?thesis by simp
    qed
  qed
  from ih rs have 5: "length rs = length (t # ts)" by simp
  from 1 2 3 4 5 show ?case by blast
qed

lemma claim_attempts_none:
  assumes "store_ok s" and "\<forall>u \<in> set ts. \<forall>j \<in> set (jobs s). \<not> eligible u j"
  shows "claim_attempts s ts = (replicate (length ts) None, s)"
  using assms(2)
proof (induction ts)
  case Nil
  then show ?case by simp
next
  case (Cons t ts)
  from Cons.prems have "\<forall>j \<in> set (jobs s). \<not> eligible t j" by simp
  with claimTx_None [OF assms(1), of t] have "fst (claimTx s t) = None" by simp
  then have c: "claimTx s t = (None, snd (claimTx s t))" by (metis prod.collapse)
  from claimTx_None_unchanged [OF assms(1) c] c have c': "claimTx s t = (None, s)" by simp
  from Cons have "claim_attempts s ts = (replicate (length ts) None, s)" by simp
  with c' show ?case by simp
qed

lemma claim_attempts_single:
  assumes "store_ok s" and "j \<in> set (jobs s)" and "eligible t j"
    and "\<forall>k \<in> set (jobs s). k \<noteq> j \<longrightarrow> (\<forall>u \<in> set (t # ts). \<not> eligible u k)"
  shows "fst (claim_attempts s (t # ts)) = Some (job_id j) # replicate (length ts) None"
proof -
  obtain r s1 where c: "claimTx s t = (r, s1)" by (cases "claimTx s t")
  from claimTx_None [OF assms(1), of t] c assms(2,3) have "r \<noteq> None" by auto
  then obtain i where r: "r = Some i" by auto
  with c have cl: "claimTx s t = (Some i, s1)" by simp
  from claimTx_Some [OF assms(1) cl] obtain k where k: "k \<in> set (jobs s)" "job_id k = i" "eligible t k"
    and g: "get_job (jobs s1) i = Some (k\<lparr>state := Processing, updated_at := t\<rparr>)"
    and o: "\<forall>i'. i' \<noteq> i \<longrightarrow> get_job (jobs s1) i' = get_job (jobs s) i'"
    by blast
  from assms(4) k(1) k(3) have kj: "k = j" by auto
  from claimTx_rows [OF assms(1) c] have ok1: "store_ok s1" by simp
  then have d1: "distinct (map job_id (jobs s1))" by (simp add: store_ok_def)
  have ne: "\<forall>u \<in> set ts. \<forall>x \<in> set (jobs s1). \<not> eligible u x"
  proof (intro ballI)
    fix u x assume u: "u \<in> set ts" and x: "x \<in> set (jobs s1)"
    from get_job_member [OF d1 x] have gx: "get_job (jobs s1) (job_id x) = Some x" .
    show "\<not> eligible u x"
    proof (cases "job_id x = i")
      case True
      with gx g have "x = k\<lparr>state := Processing, updated_at := t\<rparr>" by simp
      then show ?thesis by (simp add: eligible_def)
    next
      case False
      with o have "get_job (jobs s1) (job_id x) = get_job (jobs s) (job_id x)" by blast
      with gx have "get_job (jobs s) (job_id x) = Some x" by simp
      from get_job_SomeD [OF this] have xin: "x \<in> set (jobs s)" by simp
      from False k(2) kj have "x \<noteq> j" by auto
      with assms(4) xin u show ?thesis by simp
    qed
  qed
  from claim_attempts_none [OF ok1 ne] c r k(2) kj show ?thesis by simp
qed

lemma conditional_update_after_claim:
  assumes "store_ok s" and "claimTx s t = (Some i, s1)"
  shows "conditional_update s1 i t' = (0, s1)"
proof -
  from claimTx_rows [OF assms] have ok1: "store_ok s1" and p: "state_of s1 i = Some Processing"
    by simp_all
  from ok1 have d1: "distinct (map job_id (jobs s1))" by (simp add: store_ok_def)
  have n: "\<And>x. x \<in> set (jobs s1) \<Longrightarrow> \<not> claimable i x"
  proof
    fix x assume x: "x \<in> set (jobs s1)" and c: "claimable i x"
    from get_job_member [OF d1 x] have gx: "get_job (jobs s1) (job_id x) = Some x" .
    from c have "job_id x = i" and st: "state x = Pending \<or> state x = Failed"
      by (simp_all add: claimable_def)
    with gx p have "state x = Processing" by (simp add: state_of_def)
    with st show False by simp
  qed
  then have f: "filter (claimable i) (jobs s1) = []" by (simp add: filter_empty_conv)
  from n have m: "map (\<lambda>j. if claimable i j then j\<lparr>state := Processing, updated_at := t'\<rparr> else j)
                    (jobs s1) = jobs s1"
    by (intro map_idI) simp
  from f m show ?thesis by (simp add: conditional_update_def sql_changes_def sql_update_def)
qed

text \<open>
  Claim C9. Take claim attempts of any number of workers, each one a transaction, run
  one after another. Every job is returned to at most one of them, and a job that was
  returned is processing at the end. When one job is eligible and no other job is, the
  first attempt changes one row and returns the job, and every later attempt reports that
  no job was claimed. After
  a successful claim, the conditional update of that job, run once more, changes zero
  rows and leaves the store as it is: a worker whose selection is out of date claims
  nothing.
\<close>

theorem claim_exclusive_serialised:
  assumes "store_ok s" and "claim_attempts s ts = (rs, s')"
  shows "length rs = length ts \<and>
         (\<forall>i. length (filter (\<lambda>r. r = Some i) rs) \<le> 1) \<and>
         (\<forall>i. Some i \<in> set rs \<longrightarrow> state_of s' i = Some Processing) \<and>
         (\<forall>j t ts'. ts = t # ts' \<and> j \<in> set (jobs s) \<and> eligible t j \<and>
              (\<forall>k \<in> set (jobs s). k \<noteq> j \<longrightarrow> (\<forall>u \<in> set ts. \<not> eligible u k)) \<longrightarrow>
              rs = Some (job_id j) # replicate (length ts') None \<and>
              sql_changes (claimable (job_id j)) (jobs s) = 1) \<and>
         (\<forall>i t s1 t'. claimTx s t = (Some i, s1) \<longrightarrow> conditional_update s1 i t' = (0, s1))"
proof (intro conjI allI impI)
  note cr = claim_attempts_rows [OF assms]
  from cr show "length rs = length ts" by simp
  fix i
  from cr show "length (filter (\<lambda>r. r = Some i) rs) \<le> 1" by simp
  assume "Some i \<in> set rs"
  with cr show "state_of s' i = Some Processing" by blast
next
  fix j t ts'
  assume h: "ts = t # ts' \<and> j \<in> set (jobs s) \<and> eligible t j \<and>
             (\<forall>k \<in> set (jobs s). k \<noteq> j \<longrightarrow> (\<forall>u \<in> set ts. \<not> eligible u k))"
  then have ts: "ts = t # ts'" and j: "j \<in> set (jobs s)" and e: "eligible t j"
    and o: "\<forall>k \<in> set (jobs s). k \<noteq> j \<longrightarrow> (\<forall>u \<in> set (t # ts'). \<not> eligible u k)"
    by simp_all
  from claim_attempts_single [OF assms(1) j e o] assms(2) ts
  show "rs = Some (job_id j) # replicate (length ts') None" by simp
  from assms(1) have "distinct (map job_id (jobs s))" by (simp add: store_ok_def)
  from claim_changes_one [OF this j e]
  show "sql_changes (claimable (job_id j)) (jobs s) = 1" .
next
  fix i t s1 t'
  assume "claimTx s t = (Some i, s1)"
  with assms(1) show "conditional_update s1 i t' = (0, s1)"
    by (rule conditional_update_after_claim)
qed

theorem claim_exclusive_serialised_witness:
  "fst (claim_attempts (sample_store Pending 0 3 ''2'')
          [1700000001000, 1700000001000, 1700000001001])
     = [Some ''job2'', None, None] \<and>
   conditional_update (snd (claimTx (sample_store Pending 0 3 ''2'') 1700000001000)) ''job2''
     1700000001000
     = (0, snd (claimTx (sample_store Pending 0 3 ''2'') 1700000001000))"
proof -
  let ?s = "sample_store Pending 0 3 ''2''"
  let ?ts = "[1700000001000, 1700000001000, 1700000001001] :: int list"
  let ?c = "claim_attempts ?s ?ts"
  have ok: "store_ok ?s" by (simp add: store_ok_def sample_store_def sample_job_def)
  have p: "?c = (fst ?c, snd ?c)" by simp
  have js: "jobs ?s = [sample_job Pending 0 3]" by (simp add: sample_store_def)
  have el: "eligible 1700000001000 (sample_job Pending 0 3)"
    by (simp add: eligible_def sample_job_def)
  have id: "job_id (sample_job Pending 0 3) = ''job2''" by (simp add: sample_job_def)
  have cl: "claimTx ?s 1700000001000 = (Some ''job2'', snd (claimTx ?s 1700000001000))"
    by code_simp
  note T = claim_exclusive_serialised [OF ok p]
  from T have "\<forall>j t ts'. ?ts = t # ts' \<and> j \<in> set (jobs ?s) \<and> eligible t j \<and>
              (\<forall>k \<in> set (jobs ?s). k \<noteq> j \<longrightarrow> (\<forall>u \<in> set ?ts. \<not> eligible u k)) \<longrightarrow>
              fst ?c = Some (job_id j) # replicate (length ts') None \<and>
              sql_changes (claimable (job_id j)) (jobs ?s) = 1"
    by blast
  from this [rule_format, of 1700000001000 "[1700000001000, 1700000001001]" "sample_job Pending 0 3"]
    js el id
  have 1: "fst ?c = [Some ''job2'', None, None]" by (simp add: numeral_3_eq_3)
  from T have "\<forall>i t s1 t'. claimTx ?s t = (Some i, s1) \<longrightarrow> conditional_update s1 i t' = (0, s1)"
    by blast
  from this [rule_format, OF cl]
  have 2: "conditional_update (snd (claimTx ?s 1700000001000)) ''job2'' 1700000001000
             = (0, snd (claimTx ?s 1700000001000))" .
  from 1 2 show ?thesis by simp
qed

end
